theory Spec2Isabelle
  imports Main "HOL-Library.Word"
begin

section \<open>The transport and the session state of \<open>Bot\<close> (src/bot\_api.js)\<close>

text \<open>
  \<open>this.run(method, params)\<close> is the transport of the base class: it resolves to a
  TDLib object or rejects with a failure that carries a numeric code and a message.
  The requests that the modelled operations issue are the constructors of \<open>call\<close>;
  chat, user, group and message identifiers are the integers TDLib uses.
\<close>

datatype td_error = TdError (td_code: int) (td_message: string)

text \<open>A JavaScript value, as far as the option objects of the facade need it.\<close>

datatype jsval =
    JUndefined
  | JNull
  | JBool bool
  | JNum int
  | JStr string
  | JObj "(string \<times> jsval) list"

datatype call =
    GetChat int
  | GetSupergroup int
  | CreateSupergroupChat int bool
  | GetBasicGroup int
  | CreateBasicGroupChat int bool
  | GetUser int
  | CreatePrivateChat int bool
  | SearchPublicChat string
  | GetMessages int "int list"
  | DeleteMessages int "int list" bool
  | SetSupergroupDescription int string
  | AnswerCallbackQuery jsval

text \<open>
  The objects the transport answers with, typed by the TDLib schema of each method:
  a result that the code only inspects by its \<open>@type\<close> is \<open>Ok\<close> or an object of
  another type; \<open>searchPublicChat\<close> answers a chat (or a falsy value, which the code
  tests for); \<open>getMessages\<close> answers a \<open>messages\<close> list whose entries may be null.
\<close>

datatype td_obj = Ok | Obj string

record chat =
  chat_ident :: int

record message =
  msg_id :: int
  msg_chat_id :: int
  can_be_deleted_for_all_users :: bool

text \<open>
  The transport is an oracle: its answer to a request may depend on every request
  issued before it (the trace), so that the same request can succeed once and fail
  the next time.
\<close>

record transport =
  run_result :: "call list \<Rightarrow> call \<Rightarrow> td_error + td_obj"
  run_chat :: "call list \<Rightarrow> call \<Rightarrow> td_error + chat option"
  run_messages :: "call list \<Rightarrow> call \<Rightarrow> td_error + message option list"

text \<open>What an operation throws (or rejects its promise with).\<close>

datatype exn =
    JsError string
  | TdFailure td_error
  | Thrown td_obj

record cache_entry =
  data :: chat
  timestamp :: int

text \<open>
  The registry of outstanding waits is the event bus that \<open>Bot\<close> inherits from
  \<open>TdClientActor\<close>, a class of the repository that is not among the sources; its
  operations \<open>once\<close> and \<open>emit\<close> are modelled below from the event-bus contract of the
  specification. The bus is the list of the registered one-shot handlers, in the order
  of their registration. The only such handler that the modelled code registers is the
  closure of \<open>_waitMessageTillSent\<close>, which holds the \<open>rs\<close> and \<open>rj\<close> of a promise:
  \<open>SendWait n\<close> is the closure for promise number \<open>n\<close>.
\<close>

datatype handler = SendWait nat

record listener =
  event :: string
  handler :: handler

text \<open>
  The payload of a \<open>_sendMsg:\<close> event: \<open>{ok: true, message}\<close> or
  \<open>{ok: false, code, error_message, message}\<close>.
\<close>

datatype send_result = SendOk message | SendFailed int string message

text \<open>
  A call of \<open>rs\<close> or \<open>rj\<close> of a promise: \<open>rs(this._getMessage(update.message))\<close> resolves
  with the message (as \<open>conversion.buildMessage\<close>, which is outside the sources, renders
  it), \<open>rj(new Error(...))\<close> rejects.
\<close>

datatype settlement = Resolved message | Rejected exn

text \<open>
  The fields of \<open>Bot\<close> that the modelled operations read or write, and three that
  record effects outside the object: \<open>calls\<close>, the trace of the requests handed to the
  transport so far; \<open>promise_count\<close>, the number of promises that \<open>_waitMessageTillSent\<close>
  has created (promise number \<open>n\<close> is the one created when the count was \<open>n\<close>); and
  \<open>settled\<close>, the calls of \<open>rs\<close> and \<open>rj\<close> made so far, each with the number of its promise.
\<close>

record bot =
  ready :: bool
  inited_chat :: "int set"
  username_cache :: "string \<rightharpoonup> cache_entry"
  username_cache_period :: int
  encrypt_callback_query :: "8 word list option"
  listeners :: "listener list"
  calls :: "call list"
  promise_count :: nat
  settled :: "(nat \<times> settlement) list"

type_synonym 'a action = "bot \<Rightarrow> (exn + 'a) \<times> bot"

text \<open>\<open>await m\<close> followed by the rest of the function: a rejection of \<open>m\<close> propagates.\<close>

definition await :: "'a action \<Rightarrow> ('a \<Rightarrow> 'b action) \<Rightarrow> 'b action" where
  "await m k s = (case m s of (Inl e, s') \<Rightarrow> (Inl e, s') | (Inr v, s') \<Rightarrow> k v s')"

definition return :: "'a \<Rightarrow> 'a action" where
  "return v s = (Inr v, s)"

definition throw :: "exn \<Rightarrow> 'a action" where
  "throw e s = (Inl e, s)"

text \<open>\<open>try { m } catch (e) { h e }\<close>\<close>

definition try_catch :: "'a action \<Rightarrow> (exn \<Rightarrow> 'a action) \<Rightarrow> 'a action" where
  "try_catch m h s = (case m s of (Inl e, s') \<Rightarrow> h e s' | (Inr v, s') \<Rightarrow> (Inr v, s'))"

definition run :: "transport \<Rightarrow> call \<Rightarrow> td_obj action" where
  "run tr c s =
     (case run_result tr (calls s) c of
        Inl e \<Rightarrow> (Inl (TdFailure e), s\<lparr>calls := calls s @ [c]\<rparr>)
      | Inr v \<Rightarrow> (Inr v, s\<lparr>calls := calls s @ [c]\<rparr>))"

definition run_searchPublicChat :: "transport \<Rightarrow> string \<Rightarrow> chat option action" where
  "run_searchPublicChat tr username s =
     (case run_chat tr (calls s) (SearchPublicChat username) of
        Inl e \<Rightarrow> (Inl (TdFailure e), s\<lparr>calls := calls s @ [SearchPublicChat username]\<rparr>)
      | Inr v \<Rightarrow> (Inr v, s\<lparr>calls := calls s @ [SearchPublicChat username]\<rparr>))"

definition run_getMessages :: "transport \<Rightarrow> int \<Rightarrow> int list \<Rightarrow> message option list action" where
  "run_getMessages tr chat_id message_ids s =
     (case run_messages tr (calls s) (GetMessages chat_id message_ids) of
        Inl e \<Rightarrow> (Inl (TdFailure e), s\<lparr>calls := calls s @ [GetMessages chat_id message_ids]\<rparr>)
      | Inr v \<Rightarrow> (Inr v, s\<lparr>calls := calls s @ [GetMessages chat_id message_ids]\<rparr>))"

section \<open>The initialization sequencer: \<open>_initChatIfNeeded\<close>\<close>

text \<open>
  \<^verbatim>\<open>
  async _initChatIfNeeded(chat_id) {
      if (this._inited_chat.has(chat_id)) return
      try {
          await this.run('getChat', { chat_id })
      } catch (e) {
          if (chat_id < -Math.pow(10, 12)) {
              await this.run('getSupergroup', { supergroup_id: Math.abs(chat_id) - Math.pow(10, 12) })
              await this.run('createSupergroupChat', { supergroup_id: ..., force: false })
          } else if (chat_id < 0) {
              await this.run('getBasicGroup', { basic_group_id: Math.abs(chat_id) })
              await this.run('createBasicGroupChat', { basic_group_id: Math.abs(chat_id), force: false })
          } else {
              await this.run('getUser', { user_id: chat_id })
              await this.run('createPrivateChat', { user_id: chat_id, force: false })
          }
      }
      this._inited_chat.add(chat_id)
      return
  }
  \<close>
\<close>

definition initChatIfNeeded :: "transport \<Rightarrow> int \<Rightarrow> unit action" where
  "initChatIfNeeded tr chat_id s =
     (if chat_id \<in> inited_chat s then (Inr (), s)
      else
        await
          (try_catch
             (await (run tr (GetChat chat_id)) (\<lambda>_. return ()))
             (\<lambda>e.
                if chat_id < - (10 ^ 12) then
                  await (run tr (GetSupergroup (\<bar>chat_id\<bar> - 10 ^ 12))) (\<lambda>_.
                  await (run tr (CreateSupergroupChat (\<bar>chat_id\<bar> - 10 ^ 12) False)) (\<lambda>_.
                  return ()))
                else if chat_id < 0 then
                  await (run tr (GetBasicGroup \<bar>chat_id\<bar>)) (\<lambda>_.
                  await (run tr (CreateBasicGroupChat \<bar>chat_id\<bar> False)) (\<lambda>_.
                  return ()))
                else
                  await (run tr (GetUser chat_id)) (\<lambda>_.
                  await (run tr (CreatePrivateChat chat_id False)) (\<lambda>_.
                  return ()))))
          (\<lambda>_ s'. (Inr (), s'\<lparr>inited_chat := insert chat_id (inited_chat s')\<rparr>)) s)"

text \<open>
  The two requests of the kind-specific sequence, by the same tests on \<open>chat_id\<close>
  as the \<open>catch\<close> block: the descriptor fetch, then the creation call.
\<close>

definition descriptor_request :: "int \<Rightarrow> call" where
  "descriptor_request chat_id =
     (if chat_id < - (10 ^ 12) then GetSupergroup (\<bar>chat_id\<bar> - 10 ^ 12)
      else if chat_id < 0 then GetBasicGroup \<bar>chat_id\<bar>
      else GetUser chat_id)"

definition creation_request :: "int \<Rightarrow> call" where
  "creation_request chat_id =
     (if chat_id < - (10 ^ 12) then CreateSupergroupChat (\<bar>chat_id\<bar> - 10 ^ 12) False
      else if chat_id < 0 then CreateBasicGroupChat \<bar>chat_id\<bar> False
      else CreatePrivateChat chat_id False)"

text \<open>
  The context-id encoding in the words of the specification: non-negative identifiers
  are direct contexts, negative ones with magnitude below \<open>10^12\<close> are groups, negative
  ones with magnitude at or above \<open>10^12\<close> are supergroups or broadcasts, whose group
  identifier is the magnitude minus \<open>10^12\<close>.
\<close>

datatype context_kind = Direct int | Group int | Supergroup int

definition spec_context_kind :: "int \<Rightarrow> context_kind" where
  "spec_context_kind chat_id =
     (if 0 \<le> chat_id then Direct chat_id
      else if \<bar>chat_id\<bar> < 10 ^ 12 then Group \<bar>chat_id\<bar>
      else Supergroup (\<bar>chat_id\<bar> - 10 ^ 12))"

text \<open>The descriptor fetch that the encoding of the specification asks for.\<close>

definition spec_descriptor_request :: "int \<Rightarrow> call" where
  "spec_descriptor_request chat_id =
     (case spec_context_kind chat_id of
        Direct u \<Rightarrow> GetUser u
      | Group g \<Rightarrow> GetBasicGroup g
      | Supergroup g \<Rightarrow> GetSupergroup g)"

section \<open>The identity cache: \<open>_checkChatId\<close>\<close>

text \<open>
  A \<open>chat_id\<close> as a caller passes it. \<open>ChatNum n\<close> is the integer \<open>n\<close>, as a number or as
  a string that \<open>Number()\<close> reads as \<open>n\<close>: \<open>isNaN\<close> is false for it and \<open>parseInt\<close>
  yields \<open>n\<close>. \<open>ChatName h\<close> is a string \<open>h\<close> that \<open>Number()\<close> does not read as a number:
  \<open>isNaN\<close> is true for it and its type is \<open>string\<close>. (A value that is neither, for
  which the function throws at once, is not an argument of the model.)
\<close>

datatype chat_ref = ChatNum int | ChatName string

definition is_word_char :: "char \<Rightarrow> bool" where
  "is_word_char c =
     (let n = (of_char c :: nat)
      in (97 \<le> n \<and> n \<le> 122) \<or> (65 \<le> n \<and> n \<le> 90) \<or> (48 \<le> n \<and> n \<le> 57) \<or> n = 95)"

text \<open>
  \<open>chat_id.match(/^@?([a-zA-Z0-9_]+)$/)\<close>, element \<open>[0]\<close>: the whole match, with its
  \<open>@\<close> when there is one; \<open>None\<close> when \<open>match\<close> returns null.
\<close>

definition username_match :: "string \<Rightarrow> string option" where
  "username_match str =
     (let rest = (case str of [] \<Rightarrow> [] | c # cs \<Rightarrow> if c = CHR ''@'' then cs else str)
      in if rest \<noteq> [] \<and> list_all is_word_char rest then Some str else None)"

fun starts_with :: "string \<Rightarrow> string \<Rightarrow> bool" where
  "starts_with s [] = True"
| "starts_with [] (p # ps) = False"
| "starts_with (c # cs) (p # ps) = (c = p \<and> starts_with cs ps)"

text \<open>\<open>s.indexOf(p) > -1\<close>\<close>

fun contains_text :: "string \<Rightarrow> string \<Rightarrow> bool" where
  "contains_text [] p = (p = [])"
| "contains_text (c # cs) p = (starts_with (c # cs) p \<or> contains_text cs p)"

text \<open>\<open>e.message\<close> of what was caught.\<close>

definition exn_message :: "exn \<Rightarrow> string" where
  "exn_message e = (case e of JsError m \<Rightarrow> m | TdFailure err \<Rightarrow> td_message err | Thrown _ \<Rightarrow> [])"

text \<open>
  \<^verbatim>\<open>
  async _checkChatId(chat_id) {
      if (isNaN(chat_id)) {
          if (typeof chat_id !== 'string') { throw new Error('chat_id is not a string nor number: ' + chat_id) }
          try {
              const username = chat_id.match(/^@?([a-zA-Z0-9_]+)$/)[0]
              if (this._username_cache.has(username)) {
                  const cached_chat = this._username_cache.get(username)
                  if (Date.now() - cached_chat.timestamp < this._username_cache_period) return cached_chat.data.id
              }
              const resolved_chat = await this.run('searchPublicChat', { username })
              if (resolved_chat) {
                  this._username_cache.set(username, {data: resolved_chat, timestamp: Date.now()})
              } else {
                  throw new Error('Not resolved.')
              }
              return resolved_chat.id
          } catch (e) {
              if (e.message.indexOf('Too Many Requests') > -1) { throw e }
              console.error(e.stack)
              throw new Error('cannot resolve name: ' + chat_id)
          }
      } else {
          return parseInt(chat_id)
      }
  }
  \<close>
  \<open>Date.now()\<close> is read at most twice: \<open>now_check\<close> is its value at the test of the
  cached entry, \<open>now_store\<close> its value when the fresh entry is stored.
\<close>

definition checkChatId :: "transport \<Rightarrow> int \<Rightarrow> int \<Rightarrow> chat_ref \<Rightarrow> int action" where
  "checkChatId tr now_check now_store chat_id s =
     (case chat_id of
        ChatNum n \<Rightarrow> (Inr n, s)
      | ChatName str \<Rightarrow>
          try_catch
            (\<lambda>s0.
               case username_match str of
                 None \<Rightarrow> (Inl (JsError ''Cannot read property 0 of null''), s0)
               | Some username \<Rightarrow>
                   let search =
                     await (run_searchPublicChat tr username) (\<lambda>resolved_chat.
                       case resolved_chat of
                         Some c \<Rightarrow> (\<lambda>s1.
                           (Inr (chat_ident c),
                            s1\<lparr>username_cache := (username_cache s1)
                                 (username \<mapsto> \<lparr>data = c, timestamp = now_store\<rparr>)\<rparr>))
                       | None \<Rightarrow> throw (JsError ''Not resolved.''))
                   in
                     (case username_cache s0 username of
                        Some cached_chat \<Rightarrow>
                          if now_check - timestamp cached_chat < username_cache_period s0
                          then (Inr (chat_ident (data cached_chat)), s0)
                          else search s0
                      | None \<Rightarrow> search s0))
            (\<lambda>e.
               if contains_text (exn_message e) ''Too Many Requests'' then throw e
               else throw (JsError (''cannot resolve name: '' @ str)))
            s)"

section \<open>Facade operations\<close>

text \<open>
  \<^verbatim>\<open>
  async _loadMessageBatch(chat_id, message_ids) {
      const results = await this.run('getMessages', { chat_id, message_ids })
      return results.messages
  }
  \<close>
\<close>

definition loadMessageBatch :: "transport \<Rightarrow> int \<Rightarrow> int list \<Rightarrow> message option list action" where
  "loadMessageBatch tr chat_id message_ids = run_getMessages tr chat_id message_ids"

text \<open>
  \<^verbatim>\<open>
  async deleteMessage(chat_id, message_ids) {
      if (!this.ready) throw new Error('Not ready.')
      chat_id = await this._checkChatId(chat_id)
      await this._initChatIfNeeded(chat_id)
      if (!Array.isArray(message_ids)) message_ids = [message_ids]
      message_ids = message_ids.map((id) => _util.get_tdlib_message_id(id))
      const messages = await this._loadMessageBatch(chat_id, message_ids)
      const to_be_deleted = messages.filter(m => m && m.can_be_deleted_for_all_users).map(m => m.id)
      if (to_be_deleted.length === 0) return true
      if (to_be_deleted.length > 100) throw new Error('Too many messages.')
      let _opt = { chat_id, message_ids: to_be_deleted, revoke: true }
      let ret = await this.run('deleteMessages', _opt)
      if (ret['@type'] == 'ok') return true
      else throw ret
  }
  \<close>
  \<open>_util.get_tdlib_message_id\<close> is defined in another file of the repository; it is
  the parameter \<open>get_tdlib_message_id\<close>. The argument \<open>message_ids\<close> is either one
  identifier (\<open>Inl\<close>) or an array of them (\<open>Inr\<close>).
\<close>

definition deletable :: "message option \<Rightarrow> bool" where
  "deletable m = (case m of None \<Rightarrow> False | Some x \<Rightarrow> can_be_deleted_for_all_users x)"

definition deleteMessage ::
  "transport \<Rightarrow> (int \<Rightarrow> int) \<Rightarrow> int \<Rightarrow> int \<Rightarrow> chat_ref \<Rightarrow> int + int list \<Rightarrow> bool action" where
  "deleteMessage tr get_tdlib_message_id now_check now_store chat_id message_ids s =
     (if \<not> ready s then (Inl (JsError ''Not ready.''), s)
      else
        await (checkChatId tr now_check now_store chat_id) (\<lambda>chat_id.
        await (initChatIfNeeded tr chat_id) (\<lambda>_.
          let message_ids = (case message_ids of Inl i \<Rightarrow> [i] | Inr ids \<Rightarrow> ids);
              message_ids = map get_tdlib_message_id message_ids
          in
            await (loadMessageBatch tr chat_id message_ids) (\<lambda>messages.
              let to_be_deleted = map (\<lambda>m. msg_id (the m)) (filter deletable messages)
              in
                if length to_be_deleted = 0 then return True
                else if length to_be_deleted > 100 then throw (JsError ''Too many messages.'')
                else
                  await (run tr (DeleteMessages chat_id to_be_deleted True)) (\<lambda>ret.
                    if ret = Ok then return True else throw (Thrown ret))))) s)"

text \<open>
  \<^verbatim>\<open>
  async setChatDescription(chat_id, description) {
      if (!this.ready) throw new Error('Not ready.')
      chat_id = await this._checkChatId(chat_id)
      if (chat_id > -Math.pow(10, 12)) throw new Error('Not a supergroup or channel.')
      await this._initChatIfNeeded(chat_id)
      let opt = { supergroup_id: Math.abs(chat_id) - Math.pow(10, 12), description }
      let ret = await this.run('setSupergroupDescription', opt)
      if (ret['@type'] == 'ok') return true
      else throw ret
  }
  \<close>
\<close>

definition setChatDescription ::
  "transport \<Rightarrow> int \<Rightarrow> int \<Rightarrow> chat_ref \<Rightarrow> string \<Rightarrow> bool action" where
  "setChatDescription tr now_check now_store chat_id description s =
     (if \<not> ready s then (Inl (JsError ''Not ready.''), s)
      else
        await (checkChatId tr now_check now_store chat_id) (\<lambda>chat_id.
          if chat_id > - (10 ^ 12) then throw (JsError ''Not a supergroup or channel.'')
          else
            await (initChatIfNeeded tr chat_id) (\<lambda>_.
            await (run tr (SetSupergroupDescription (\<bar>chat_id\<bar> - 10 ^ 12) description)) (\<lambda>ret.
              if ret = Ok then return True else throw (Thrown ret)))) s)"

text \<open>
  \<^verbatim>\<open>
  async answerCallbackQuery(callback_query_id, options = {}) {
      if (typeof options !== 'object') {
          options = { callback_query_id: arguments[0], text: arguments[1], show_alert: arguments[2] }
      }
      if (typeof callback_query_id === 'object') {
          options = callback_query_id
      } else {
          options.callback_query_id = callback_query_id
      }
      let ret = await this.run('answerCallbackQuery', options)
      if (ret['@type'] == 'ok') return true
      else throw ret
  }
  \<close>
  The function is called with the list \<open>arguments\<close>; a missing argument is
  \<open>undefined\<close>, and the default \<open>{}\<close> replaces an \<open>undefined\<close> second argument.
\<close>

definition typeof :: "jsval \<Rightarrow> string" where
  "typeof v =
     (case v of
        JUndefined \<Rightarrow> ''undefined''
      | JNull \<Rightarrow> ''object''
      | JBool _ \<Rightarrow> ''boolean''
      | JNum _ \<Rightarrow> ''number''
      | JStr _ \<Rightarrow> ''string''
      | JObj _ \<Rightarrow> ''object'')"

definition argument :: "jsval list \<Rightarrow> nat \<Rightarrow> jsval" where
  "argument arguments i = (if i < length arguments then arguments ! i else JUndefined)"

fun set_property :: "(string \<times> jsval) list \<Rightarrow> string \<Rightarrow> jsval \<Rightarrow> (string \<times> jsval) list" where
  "set_property [] k v = [(k, v)]"
| "set_property ((k', v') # fs) k v =
     (if k' = k then (k, v) # fs else (k', v') # set_property fs k v)"

definition answerCallbackQuery :: "transport \<Rightarrow> jsval list \<Rightarrow> bool action" where
  "answerCallbackQuery tr arguments s =
     (let callback_query_id = argument arguments 0;
          options = (case argument arguments 1 of JUndefined \<Rightarrow> JObj [] | v \<Rightarrow> v);
          options =
            (if typeof options \<noteq> ''object''
             then JObj [(''callback_query_id'', argument arguments 0),
                        (''text'', argument arguments 1),
                        (''show_alert'', argument arguments 2)]
             else options);
          send = (\<lambda>options.
            await (run tr (AnswerCallbackQuery options)) (\<lambda>ret.
              if ret = Ok then return True else throw (Thrown ret)))
      in
        if typeof callback_query_id = ''object'' then send callback_query_id s
        else
          (case options of
             JObj props \<Rightarrow> send (JObj (set_property props ''callback_query_id'' callback_query_id)) s
           | _ \<Rightarrow> (Inl (JsError ''Cannot set property callback_query_id of null''), s)))"

text \<open>
  The fields of a new \<open>Bot\<close>, as the constructor sets them:
  \<^verbatim>\<open>
  this._encrypt_callback_query = options.encrypt_callback_query ? crypto.scryptSync(...) : false
  this._username_cache_period = options.username_cache_period || 30 * 60 * 1000
  this._username_cache = new Map()
  this.ready = false
  this._inited_chat = new Set()
  \<close>
  The key derived by \<open>scryptSync\<close> is the argument \<open>key\<close> (\<open>None\<close> when the option is off).
\<close>

definition new_bot :: "int option \<Rightarrow> 8 word list option \<Rightarrow> bot" where
  "new_bot period key =
     \<lparr>ready = False,
      inited_chat = {},
      username_cache = Map.empty,
      username_cache_period =
        (case period of None \<Rightarrow> 30 * 60 * 1000 | Some p \<Rightarrow> if p = 0 then 30 * 60 * 1000 else p),
      encrypt_callback_query = key,
      listeners = [],
      calls = [],
      promise_count = 0,
      settled = []\<rparr>"

text \<open>The one-shot handler \<open>this.once('ready', () => this.ready = true)\<close>.\<close>

definition on_ready :: "bot \<Rightarrow> bot" where
  "on_ready s = s\<lparr>ready := True\<rparr>"

section \<open>Sample transports\<close>

text \<open>
  Three transports for concrete runs: one that accepts every request, one that
  rejects every request, and one that rejects the existence probe \<open>getChat\<close> only.
\<close>

definition accepting :: transport where
  "accepting =
     \<lparr>run_result = (\<lambda>_ _. Inr Ok),
      run_chat = (\<lambda>_ _. Inr (Some \<lparr>chat_ident = 777\<rparr>)),
      run_messages = (\<lambda>_ _. Inr [])\<rparr>"

definition rejecting :: transport where
  "rejecting =
     \<lparr>run_result = (\<lambda>_ _. Inl (TdError 400 ''Chat not found'')),
      run_chat = (\<lambda>_ _. Inl (TdError 400 ''USERNAME_NOT_OCCUPIED'')),
      run_messages = (\<lambda>_ _. Inl (TdError 400 ''Chat not found''))\<rparr>"

definition probe_rejecting :: transport where
  "probe_rejecting =
     \<lparr>run_result = (\<lambda>_ c. case c of GetChat _ \<Rightarrow> Inl (TdError 400 ''Chat not found'') | _ \<Rightarrow> Inr Ok),
      run_chat = (\<lambda>_ _. Inr (Some \<lparr>chat_ident = 777\<rparr>)),
      run_messages = (\<lambda>_ _. Inr [])\<rparr>"

text \<open>A transport whose \<open>getMessages\<close> answers with the given list of messages.\<close>

definition listing :: "message option list \<Rightarrow> transport" where
  "listing ms =
     \<lparr>run_result = (\<lambda>_ _. Inr Ok),
      run_chat = (\<lambda>_ _. Inr None),
      run_messages = (\<lambda>_ _. Inr ms)\<rparr>"

section \<open>The correlation registry: \<open>_waitMessageTillSent\<close> and the send events\<close>

text \<open>A number in a template literal: the decimal digits of an integer, with its sign.\<close>

definition digit_char :: "nat \<Rightarrow> char" where
  "digit_char n = char_of (48 + n)"

fun digits :: "nat \<Rightarrow> string" where
  "digits n = (if n < 10 then [digit_char n] else digits (n div 10) @ [digit_char (n mod 10)])"

definition js_int_string :: "int \<Rightarrow> string" where
  "js_int_string i = (if i < 0 then CHR ''-'' # digits (nat (- i)) else digits (nat i))"

text \<open>The event name \<^verbatim>\<open>`_sendMsg:${chat_id}:${message_id}`\<close>.\<close>

definition sendMsg_event :: "int \<Rightarrow> int \<Rightarrow> string" where
  "sendMsg_event chat_id message_id =
     ''_sendMsg:'' @ js_int_string chat_id @ '':'' @ js_int_string message_id"

text \<open>
  Modelled from the spec: \<open>once(name, handler)\<close> of the base class \<open>TdClientActor\<close>,
  which is not among the sources. By the event-bus contract of the specification it
  registers the handler under the event name for the single next occurrence of the
  event; the contract has no case in which a registration is refused.
\<close>

definition once :: "string \<Rightarrow> handler \<Rightarrow> bot \<Rightarrow> bot" where
  "once name h s = s\<lparr>listeners := listeners s @ [\<lparr>event = name, handler = h\<rparr>]\<rparr>"

text \<open>
  The closure registered by \<open>_waitMessageTillSent\<close>, run on the payload of the event:
  \<^verbatim>\<open>
  async (update) => {
      if (update.ok) { rs(this._getMessage(update.message)) }
      else { rj(new Error(`${update.code}: ${update.error_message}`)) }
  }
  \<close>
\<close>

fun invoke :: "handler \<Rightarrow> send_result \<Rightarrow> bot \<Rightarrow> bot" where
  "invoke (SendWait n) (SendOk m) s = s\<lparr>settled := settled s @ [(n, Resolved m)]\<rparr>"
| "invoke (SendWait n) (SendFailed code error_message m) s =
     s\<lparr>settled := settled s @
          [(n, Rejected (JsError (js_int_string code @ '': '' @ error_message)))]\<rparr>"

text \<open>
  Modelled from the spec: \<open>emit(name, payload)\<close> of the base class \<open>TdClientActor\<close>,
  which is not among the sources. By the event-bus contract of the specification the
  event is published synchronously to the handlers registered under its name, in the
  order of their registration, and a handler registered for the single next occurrence
  is unregistered by the occurrence that runs it. (The value that \<open>emit\<close> returns is
  not used by its callers.)
\<close>

definition emit :: "string \<Rightarrow> send_result \<Rightarrow> bot \<Rightarrow> bot" where
  "emit name payload s =
     fold (\<lambda>l. invoke (handler l) payload)
       (filter (\<lambda>l. event l = name) (listeners s))
       (s\<lparr>listeners := filter (\<lambda>l. event l \<noteq> name) (listeners s)\<rparr>)"

text \<open>
  \<^verbatim>\<open>
  _waitMessageTillSent(chat_id, message_id) {
      const self = this
      return new Promise(async (rs, rj) => {
          self.once(`_sendMsg:${chat_id}:${message_id}`, async (update) => { ... })
      })
  }
  \<close>
  The result is the number of the new promise.
\<close>

definition waitMessageTillSent :: "int \<Rightarrow> int \<Rightarrow> bot \<Rightarrow> nat \<times> bot" where
  "waitMessageTillSent chat_id message_id s =
     (promise_count s,
      once (sendMsg_event chat_id message_id) (SendWait (promise_count s))
        (s\<lparr>promise_count := Suc (promise_count s)\<rparr>))"

text \<open>
  The updates \<open>updateMessageSendSucceeded\<close> and \<open>updateMessageSendFailed\<close> of the
  transport (the former has no error fields; they are not read for it), and the two
  handlers that the constructor registers for them:
  \<^verbatim>\<open>
  this.on('__updateMessageSendSucceeded', (update) => {
      this.emit(`_sendMsg:${update.message.chat_id}:${update.old_message_id}`,
                { ok: true, message: update.message })
  })
  this.on('__updateMessageSendFailed', (update) => {
      this.emit(`_sendMsg:${update.message.chat_id}:${update.old_message_id}`,
                { ok: false, code: update.error_code, error_message: update.error_message,
                  message: update.message })
  })
  \<close>
\<close>

record send_update =
  upd_message :: message
  old_message_id :: int
  error_code :: int
  error_message :: string

definition on_updateMessageSendSucceeded :: "send_update \<Rightarrow> bot \<Rightarrow> bot" where
  "on_updateMessageSendSucceeded update s =
     emit (sendMsg_event (msg_chat_id (upd_message update)) (old_message_id update))
       (SendOk (upd_message update)) s"

definition on_updateMessageSendFailed :: "send_update \<Rightarrow> bot \<Rightarrow> bot" where
  "on_updateMessageSendFailed update s =
     emit (sendMsg_event (msg_chat_id (upd_message update)) (old_message_id update))
       (SendFailed (error_code update) (error_message update) (upd_message update)) s"

text \<open>The waits registered under an event name, and the settlements of a promise.\<close>

definition waits_on :: "string \<Rightarrow> bot \<Rightarrow> listener list" where
  "waits_on name s = filter (\<lambda>l. event l = name) (listeners s)"

definition settlements_of :: "nat \<Rightarrow> bot \<Rightarrow> settlement list" where
  "settlements_of n s = map snd (filter (\<lambda>x. fst x = n) (settled s))"

text \<open>
  The promises that the registry and the settlements mention have been created: their
  numbers are below \<open>promise_count\<close>. It holds of a new \<open>Bot\<close> and is kept by every
  operation on the registry.
\<close>

definition wait_number :: "handler \<Rightarrow> nat" where
  "wait_number h = (case h of SendWait n \<Rightarrow> n)"

definition promises_created :: "bot \<Rightarrow> bool" where
  "promises_created s =
     (list_all (\<lambda>l. wait_number (handler l) < promise_count s) (listeners s) \<and>
      list_all (\<lambda>x. fst x < promise_count s) (settled s))"

text \<open>
  A wait is pending under an event name: its closure is registered there, once, and
  nowhere else, and neither \<open>rs\<close> nor \<open>rj\<close> of its promise has been called.
\<close>

definition pending :: "string \<Rightarrow> nat \<Rightarrow> bot \<Rightarrow> bool" where
  "pending name n s =
     (map event (filter (\<lambda>l. handler l = SendWait n) (listeners s)) = [name] \<and>
      settlements_of n s = [])"

text \<open>The call of \<open>rs\<close> or \<open>rj\<close> that the closure for promise \<open>n\<close> makes on a payload.\<close>

definition outcome :: "nat \<Rightarrow> send_result \<Rightarrow> nat \<times> settlement" where
  "outcome n payload =
     (case payload of
        SendOk m \<Rightarrow> (n, Resolved m)
      | SendFailed c text m \<Rightarrow> (n, Rejected (JsError (js_int_string c @ '': '' @ text))))"

text \<open>An update for the message sent to chat 42 under the provisional identifier 7.\<close>

definition sample_update :: send_update where
  "sample_update =
     \<lparr>upd_message = \<lparr>msg_id = 8388608, msg_chat_id = 42, can_be_deleted_for_all_users = True\<rparr>,
      old_message_id = 7,
      error_code = 400,
      error_message = ''Bad Request''\<rparr>"

section \<open>The payload cipher: \<open>callback_data\<close> tokens\<close>

type_synonym byte = "8 word"

text \<open>
  \<open>buffer.toString('base64')\<close>: the standard alphabet, three bytes to four characters,
  padded with \<open>=\<close>.
\<close>

definition b64_char :: "nat \<Rightarrow> char" where
  "b64_char n =
     (if n < 26 then char_of (65 + n)
      else if n < 52 then char_of (71 + n)
      else if n < 62 then char_of (n - 4)
      else if n = 62 then CHR ''+''
      else CHR ''/'')"

fun b64_encode :: "byte list \<Rightarrow> string" where
  "b64_encode (a # b # c # rest) =
     [b64_char (unat a div 4),
      b64_char ((unat a mod 4) * 16 + unat b div 16),
      b64_char ((unat b mod 16) * 4 + unat c div 64),
      b64_char (unat c mod 64)] @ b64_encode rest"
| "b64_encode [a, b] =
     [b64_char (unat a div 4),
      b64_char ((unat a mod 4) * 16 + unat b div 16),
      b64_char ((unat b mod 16) * 4),
      CHR ''='']"
| "b64_encode [a] =
     [b64_char (unat a div 4),
      b64_char ((unat a mod 4) * 16),
      CHR ''='', CHR ''='']"
| "b64_encode [] = []"

text \<open>
  \<open>Buffer.from(text, 'base64')\<close>: the decoder of Node reads the characters of the
  standard and of the URL-safe alphabet, skips any other character, and stops at the
  first \<open>=\<close>; every four sextets give three bytes, and a last group of three or two
  sextets gives two bytes or one.
\<close>

definition unbase64 :: "char \<Rightarrow> nat option" where
  "unbase64 c =
     (let n = (of_char c :: nat)
      in if 65 \<le> n \<and> n \<le> 90 then Some (n - 65)
         else if 97 \<le> n \<and> n \<le> 122 then Some (n - 71)
         else if 48 \<le> n \<and> n \<le> 57 then Some (n + 4)
         else if c = CHR ''+'' \<or> c = CHR ''-'' then Some 62
         else if c = CHR ''/'' \<or> c = CHR ''_'' then Some 63
         else None)"

fun b64_sextets :: "string \<Rightarrow> nat list" where
  "b64_sextets [] = []"
| "b64_sextets (c # cs) =
     (if c = CHR ''='' then []
      else case unbase64 c of Some v \<Rightarrow> v # b64_sextets cs | None \<Rightarrow> b64_sextets cs)"

fun b64_bytes :: "nat list \<Rightarrow> byte list" where
  "b64_bytes (s1 # s2 # s3 # s4 # rest) =
     [of_nat (s1 * 4 + s2 div 16),
      of_nat ((s2 mod 16) * 16 + s3 div 4),
      of_nat ((s3 mod 4) * 64 + s4)] @ b64_bytes rest"
| "b64_bytes [s1, s2, s3] = [of_nat (s1 * 4 + s2 div 16), of_nat ((s2 mod 16) * 16 + s3 div 4)]"
| "b64_bytes [s1, s2] = [of_nat (s1 * 4 + s2 div 16)]"
| "b64_bytes [s1] = []"
| "b64_bytes [] = []"

definition b64_decode :: "string \<Rightarrow> byte list" where
  "b64_decode s = b64_bytes (b64_sextets s)"

text \<open>
  \<open>crypto.createCipheriv('aes-256-cfb', key, iv)\<close> and \<open>createDecipheriv\<close>: cipher
  feedback mode with full-block feedback. The block encryption of AES-256 is the
  parameter \<open>E\<close> (key, then 16-byte block); the mode itself is written out. Each
  16-byte piece of the text is combined by exclusive or with the encryption of the
  previous ciphertext block (of the IV for the first piece); a shorter last piece
  uses the leading bytes of the key stream. \<open>update\<close> returns the whole output and
  \<open>final\<close> adds nothing, the mode being a stream mode.
\<close>

definition xor_bytes :: "byte list \<Rightarrow> byte list \<Rightarrow> byte list" where
  "xor_bytes a b = map2 xor a b"

fun cfb_encrypt ::
  "(byte list \<Rightarrow> byte list \<Rightarrow> byte list) \<Rightarrow> byte list \<Rightarrow> byte list \<Rightarrow> byte list \<Rightarrow> byte list" where
  "cfb_encrypt E key prev p =
     (if p = [] then []
      else let c = xor_bytes (take 16 p) (E key prev)
           in c @ cfb_encrypt E key c (drop 16 p))"

fun cfb_decrypt ::
  "(byte list \<Rightarrow> byte list \<Rightarrow> byte list) \<Rightarrow> byte list \<Rightarrow> byte list \<Rightarrow> byte list \<Rightarrow> byte list" where
  "cfb_decrypt E key prev c =
     (if c = [] then []
      else xor_bytes (take 16 c) (E key prev) @ cfb_decrypt E key (take 16 c) (drop 16 c))"

text \<open>
  The \<open>callback_data\<close> branch of \<open>_parseReplyMarkup\<close>, which computes \<open>col.type.data\<close>:
  \<^verbatim>\<open>
  if (this._encrypt_callback_query) {
      let data_buffer = Buffer.from(c.callback_data, 'utf8')
      if (data_buffer.length > 48) throw new Error('Payload too long. 48 bytes max.')
      const iv = crypto.randomBytes(16)
      let encryptor = crypto.createCipheriv('aes-256-cfb', this._encrypt_callback_query, iv)
      col.type.data = Buffer.concat([iv, encryptor.update(Buffer.from(c.callback_data, 'utf8')),
                                     encryptor.final()]).toString('base64')
  } else {
      col.type.data = Buffer.from(c.callback_data, 'utf8').toString('base64')
  }
  \<close>
  The plaintext is the byte sequence \<open>data_buffer\<close> (the UTF-8 bytes of
  \<open>c.callback_data\<close>), and \<open>iv\<close> is the value that \<open>crypto.randomBytes(16)\<close> returns.
\<close>

definition parseReplyMarkup_callback_data ::
  "(byte list \<Rightarrow> byte list \<Rightarrow> byte list) \<Rightarrow> bot \<Rightarrow> byte list \<Rightarrow> byte list \<Rightarrow> exn + string" where
  "parseReplyMarkup_callback_data E s iv data_buffer =
     (case encrypt_callback_query s of
        Some key \<Rightarrow>
          if length data_buffer > 48 then Inl (JsError ''Payload too long. 48 bytes max.'')
          else Inr (b64_encode (iv @ cfb_encrypt E key iv data_buffer))
      | None \<Rightarrow> Inr (b64_encode data_buffer))"

text \<open>
  The \<open>callbackQueryPayloadData\<close> case of \<open>_processIncomingCallbackQuery\<close>:
  \<^verbatim>\<open>
  if (this._encrypt_callback_query) {
      let payload = Buffer.from(update.payload.data, 'base64')
      try {
          let iv = payload.slice(0, 16)
          let decryptor = crypto.createDecipheriv('aes-256-cfb', this._encrypt_callback_query, iv)
          evt.data = Buffer.concat([decryptor.update(payload.slice(16)), decryptor.final()]).toString('utf8')
      } catch (e) {
          ...
          return false
      }
  } else {
      evt.data = Buffer.from(update.payload.data, 'base64').toString('utf8')
  }
  \<close>
  The result is the byte sequence whose UTF-8 reading is \<open>evt.data\<close>, or \<open>None\<close> when
  the query is discarded (\<open>return false\<close>): \<open>createDecipheriv\<close> throws for an IV that is
  not 16 bytes long, which is the case when the payload is shorter than that.
\<close>

definition processIncomingCallbackQuery_data ::
  "(byte list \<Rightarrow> byte list \<Rightarrow> byte list) \<Rightarrow> bot \<Rightarrow> string \<Rightarrow> byte list option" where
  "processIncomingCallbackQuery_data E s payload_data =
     (case encrypt_callback_query s of
        Some key \<Rightarrow>
          (let payload = b64_decode payload_data;
               iv = take 16 payload
           in if length iv \<noteq> 16 then None
              else Some (cfb_decrypt E key iv (drop 16 payload)))
      | None \<Rightarrow> Some (b64_decode payload_data))"

text \<open>
  A block function, a key, an IV and a plaintext (the bytes of \<open>vote:yes\<close>) for
  concrete runs.
\<close>

definition sample_block :: "byte list \<Rightarrow> byte list \<Rightarrow> byte list" where
  "sample_block key block = take 16 (map2 (+) (key @ replicate 16 0) (block @ replicate 16 0))"

definition sample_key :: "byte list" where
  "sample_key = replicate 32 7"

definition sample_iv :: "byte list" where
  "sample_iv = [0, 1, 2, 3, 4, 5, 6, 7, 8, 9, 10, 11, 12, 13, 14, 15]"

definition sample_plaintext :: "byte list" where
  "sample_plaintext = [118, 111, 116, 101, 58, 121, 101, 115]"

text \<open>The creation call that the encoding of the specification asks for.\<close>

definition spec_creation_request :: "int \<Rightarrow> call" where
  "spec_creation_request chat_id =
     (case spec_context_kind chat_id of
        Direct u \<Rightarrow> CreatePrivateChat u False
      | Group g \<Rightarrow> CreateBasicGroupChat g False
      | Supergroup g \<Rightarrow> CreateSupergroupChat g False)"

text \<open>The number that a string of decimal digits denotes.\<close>

definition digits_value :: "string \<Rightarrow> nat" where
  "digits_value cs = foldl (\<lambda>a c. 10 * a + (of_char c - 48)) 0 cs"

section \<open>Properties\<close>

subsection \<open>The initialization sequencer\<close>

lemma init_inited: "chat_id \<in> inited_chat s \<Longrightarrow> initChatIfNeeded tr chat_id s = (Inr (), s)"
  by (simp add: initChatIfNeeded_def)

lemma init_probe_ok:
  "chat_id \<notin> inited_chat s \<Longrightarrow> run_result tr (calls s) (GetChat chat_id) = Inr v \<Longrightarrow>
   initChatIfNeeded tr chat_id s =
     (Inr (), s\<lparr>calls := calls s @ [GetChat chat_id], inited_chat := insert chat_id (inited_chat s)\<rparr>)"
  by (simp add: initChatIfNeeded_def await_def try_catch_def return_def run_def)

lemma init_probe_failed:
  assumes "chat_id \<notin> inited_chat s" "run_result tr (calls s) (GetChat chat_id) = Inl e0"
  shows "initChatIfNeeded tr chat_id s =
     (case run_result tr (calls s @ [GetChat chat_id]) (descriptor_request chat_id) of
        Inl e \<Rightarrow> (Inl (TdFailure e), s\<lparr>calls := calls s @ [GetChat chat_id, descriptor_request chat_id]\<rparr>)
      | Inr _ \<Rightarrow>
         (case run_result tr (calls s @ [GetChat chat_id, descriptor_request chat_id])
                 (creation_request chat_id) of
            Inl e \<Rightarrow>
              (Inl (TdFailure e),
               s\<lparr>calls := calls s @ [GetChat chat_id, descriptor_request chat_id, creation_request chat_id]\<rparr>)
          | Inr _ \<Rightarrow>
              (Inr (),
               s\<lparr>calls := calls s @ [GetChat chat_id, descriptor_request chat_id, creation_request chat_id],
                 inited_chat := insert chat_id (inited_chat s)\<rparr>)))"
  using assms
  by (simp add: initChatIfNeeded_def await_def try_catch_def return_def run_def
      descriptor_request_def creation_request_def split: sum.splits)

text \<open>
  Away from the boundary \<open>- 10^12\<close> the sequencer fetches the descriptor that the
  context-id encoding of the specification names.
\<close>

lemma descriptor_request_spec:
  "chat_id \<noteq> - (10 ^ 12) \<Longrightarrow> descriptor_request chat_id = spec_descriptor_request chat_id"
  by (simp add: descriptor_request_def spec_descriptor_request_def spec_context_kind_def)

text \<open>
  Claim C2 (the sequencer classifies every chat identifier by the context-id encoding:
  negative identifiers with magnitude at or above \<open>10^12\<close> are supergroups with group
  identifier magnitude minus \<open>10^12\<close>). At \<open>chat_id = - 10^12\<close> the code does otherwise:
  after a failed probe it fetches the basic group \<open>10^12\<close>, where the encoding names the
  supergroup \<open>0\<close>; the test is \<open>chat_id < -Math.pow(10, 12)\<close>. \<open>setChatDescription\<close>
  accepts the same identifier as a supergroup (its guard is \<open>chat_id > -Math.pow(10, 12)\<close>)
  and sends \<open>supergroup_id = 0\<close>, after the sequencer has created a basic group chat.
\<close>

theorem init_boundary_chat_id:
  "calls (snd (initChatIfNeeded rejecting (- (10 ^ 12)) (new_bot None None)))
     = [GetChat (- (10 ^ 12)), GetBasicGroup (10 ^ 12)]
   \<and> spec_descriptor_request (- (10 ^ 12)) = GetSupergroup 0
   \<and> setChatDescription probe_rejecting 0 0 (ChatNum (- (10 ^ 12))) ''d'' (on_ready (new_bot None None))
     = (Inr True,
        (on_ready (new_bot None None))
          \<lparr>calls := [GetChat (- (10 ^ 12)), GetBasicGroup (10 ^ 12),
                     CreateBasicGroupChat (10 ^ 12) False, SetSupergroupDescription 0 ''d''],
           inited_chat := {- (10 ^ 12)}\<rparr>)"
  by (simp add: setChatDescription_def checkChatId_def initChatIfNeeded_def await_def try_catch_def
      return_def throw_def run_def new_bot_def on_ready_def probe_rejecting_def rejecting_def
      spec_descriptor_request_def spec_context_kind_def)

text \<open>
  Claim C5: when \<open>_initChatIfNeeded\<close> has returned for a chat identifier, the identifier
  is in the initialized set, and a second call for it returns at once: it hands no
  request to any transport and leaves the state as it is. The first call, for an
  identifier that was not yet in the set, begins with the probe \<open>getChat\<close>.
\<close>

theorem ensure_ready_twice:
  assumes "initChatIfNeeded tr chat_id s = (Inr (), s1)"
  shows "chat_id \<in> inited_chat s1 \<and> initChatIfNeeded tr' chat_id s1 = (Inr (), s1) \<and>
         (chat_id \<notin> inited_chat s \<longrightarrow> (\<exists>cs. calls s1 = calls s @ GetChat chat_id # cs))"
proof (cases "chat_id \<in> inited_chat s")
  case True
  with assms have "s1 = s" by (simp add: init_inited)
  with True show ?thesis by (simp add: init_inited)
next
  case False
  show ?thesis
  proof (cases "run_result tr (calls s) (GetChat chat_id)")
    case (Inr v)
    with False assms show ?thesis by (auto simp: init_probe_ok init_inited)
  next
    case (Inl e0)
    with False assms show ?thesis
      by (auto simp: init_probe_failed init_inited split: sum.splits)
  qed
qed

theorem ensure_ready_twice_witness:
  "initChatIfNeeded rejecting 5 (snd (initChatIfNeeded accepting 5 (new_bot None None)))
     = (Inr (), snd (initChatIfNeeded accepting 5 (new_bot None None)))
   \<and> calls (snd (initChatIfNeeded accepting 5 (new_bot None None))) = [GetChat 5]"
proof -
  have h: "initChatIfNeeded accepting 5 (new_bot None None)
             = (Inr (), snd (initChatIfNeeded accepting 5 (new_bot None None)))"
    by (simp add: initChatIfNeeded_def await_def try_catch_def return_def run_def new_bot_def accepting_def)
  have c: "calls (snd (initChatIfNeeded accepting 5 (new_bot None None))) = [GetChat 5]"
    by (simp add: initChatIfNeeded_def await_def try_catch_def return_def run_def new_bot_def accepting_def)
  from ensure_ready_twice [OF h, of rejecting] c show ?thesis by simp
qed

text \<open>
  Claim C6, as stated (a failure of any step, the existence probe included, is surfaced
  and the identifier is not added), fails: the probe \<open>getChat 5\<close> is rejected, the
  kind-specific sequence succeeds, and the call returns with \<open>5\<close> in the initialized set.
\<close>

theorem init_probe_failure_counterexample:
  "run_result probe_rejecting (calls (new_bot None None)) (GetChat 5) = Inl (TdError 400 ''Chat not found'')
   \<and> fst (initChatIfNeeded probe_rejecting 5 (new_bot None None)) = Inr ()
   \<and> 5 \<in> inited_chat (snd (initChatIfNeeded probe_rejecting 5 (new_bot None None)))"
  by (simp add: initChatIfNeeded_def await_def try_catch_def return_def run_def new_bot_def
      probe_rejecting_def)

text \<open>
  Claim C6, amended: after a rejected existence probe, a rejection of the descriptor
  fetch or of the creation call is what the caller gets, with the requests issued so
  far as the only change of the state; when both succeed the call succeeds and the
  identifier is added (the rejection of the probe is not surfaced). Whenever the call
  fails, the initialized set is as before, the identifier is not in it, and the next
  call for the identifier starts again with the probe.
\<close>

theorem init_failure_surfaced:
  assumes "chat_id \<notin> inited_chat s"
    and "run_result tr (calls s) (GetChat chat_id) = Inl e0"
    and "t1 = calls s @ [GetChat chat_id]"
    and "t2 = t1 @ [descriptor_request chat_id]"
    and "t3 = t2 @ [creation_request chat_id]"
  shows "(run_result tr t1 (descriptor_request chat_id) = Inl e \<longrightarrow>
           initChatIfNeeded tr chat_id s = (Inl (TdFailure e), s\<lparr>calls := t2\<rparr>))
       \<and> ((\<exists>v. run_result tr t1 (descriptor_request chat_id) = Inr v) \<and>
            run_result tr t2 (creation_request chat_id) = Inl e \<longrightarrow>
           initChatIfNeeded tr chat_id s = (Inl (TdFailure e), s\<lparr>calls := t3\<rparr>))
       \<and> ((\<exists>v. run_result tr t1 (descriptor_request chat_id) = Inr v) \<and>
            (\<exists>v. run_result tr t2 (creation_request chat_id) = Inr v) \<longrightarrow>
           initChatIfNeeded tr chat_id s =
             (Inr (), s\<lparr>calls := t3, inited_chat := insert chat_id (inited_chat s)\<rparr>))
       \<and> (\<forall>e' s'. initChatIfNeeded tr chat_id s = (Inl e', s') \<longrightarrow>
             inited_chat s' = inited_chat s \<and> chat_id \<notin> inited_chat s' \<and>
             (\<exists>cs. calls (snd (initChatIfNeeded tr' chat_id s')) = calls s' @ GetChat chat_id # cs))"
proof -
  note pf = init_probe_failed [OF assms(1,2)]
  have retry: "\<exists>cs. calls (snd (initChatIfNeeded tr' chat_id s')) = calls s' @ GetChat chat_id # cs"
    if "chat_id \<notin> inited_chat s'" for s'
  proof (cases "run_result tr' (calls s') (GetChat chat_id)")
    case (Inl a)
    then show ?thesis using that
      by (simp add: init_probe_failed split: sum.splits)
  next
    case (Inr b)
    then show ?thesis using that by (simp add: init_probe_ok)
  qed
  have c1: "run_result tr t1 (descriptor_request chat_id) = Inl e \<longrightarrow>
           initChatIfNeeded tr chat_id s = (Inl (TdFailure e), s\<lparr>calls := t2\<rparr>)"
    using pf assms(3,4) by simp
  have c2: "(\<exists>v. run_result tr t1 (descriptor_request chat_id) = Inr v) \<and>
            run_result tr t2 (creation_request chat_id) = Inl e \<longrightarrow>
           initChatIfNeeded tr chat_id s = (Inl (TdFailure e), s\<lparr>calls := t3\<rparr>)"
    using pf assms(3,4,5) by auto
  have c3: "(\<exists>v. run_result tr t1 (descriptor_request chat_id) = Inr v) \<and>
            (\<exists>v. run_result tr t2 (creation_request chat_id) = Inr v) \<longrightarrow>
           initChatIfNeeded tr chat_id s =
             (Inr (), s\<lparr>calls := t3, inited_chat := insert chat_id (inited_chat s)\<rparr>)"
    using pf assms(3,4,5) by auto
  have c4: "inited_chat s' = inited_chat s \<and> chat_id \<notin> inited_chat s' \<and>
             (\<exists>cs. calls (snd (initChatIfNeeded tr' chat_id s')) = calls s' @ GetChat chat_id # cs)"
    if f: "initChatIfNeeded tr chat_id s = (Inl e', s')" for e' s'
  proof -
    have "inited_chat s' = inited_chat s"
      using f pf by (auto split: sum.splits)
    with assms(1) retry show ?thesis by simp
  qed
  from c1 c2 c3 c4 show ?thesis by blast
qed

theorem init_failure_surfaced_witness:
  "initChatIfNeeded rejecting 5 (new_bot None None) =
     (Inl (TdFailure (TdError 400 ''Chat not found'')),
      (new_bot None None)\<lparr>calls := [GetChat 5, GetUser 5]\<rparr>)"
  using init_failure_surfaced [of 5 "new_bot None None" rejecting "TdError 400 ''Chat not found''"
      "[GetChat 5]" "[GetChat 5, GetUser 5]" "[GetChat 5, GetUser 5, CreatePrivateChat 5 False]"
      "TdError 400 ''Chat not found''" rejecting]
  by (simp add: new_bot_def rejecting_def descriptor_request_def creation_request_def)

subsection \<open>Facade operations\<close>

text \<open>The operations that begin with the test of \<open>ready\<close> reject before any request.\<close>

lemma deleteMessage_not_ready:
  "\<not> ready s \<Longrightarrow>
   deleteMessage tr get_tdlib_message_id now_check now_store chat_id message_ids s
     = (Inl (JsError ''Not ready.''), s)"
  by (simp add: deleteMessage_def)

lemma setChatDescription_not_ready:
  "\<not> ready s \<Longrightarrow>
   setChatDescription tr now_check now_store chat_id description s = (Inl (JsError ''Not ready.''), s)"
  by (simp add: setChatDescription_def)

text \<open>
  Claim C4 (every public operation invoked while \<open>ready\<close> is false is rejected at once,
  with no transport call). \<open>answerCallbackQuery\<close> has no test of \<open>ready\<close>: on a new
  \<open>Bot\<close>, whose \<open>ready\<close> is false, it hands its request to the transport and returns
  \<open>true\<close>.
\<close>

theorem answerCallbackQuery_not_ready:
  "\<not> ready (new_bot None None) \<and>
   answerCallbackQuery accepting [JStr ''17'', JObj [(''text'', JStr ''hi'')]] (new_bot None None)
     = (Inr True,
        (new_bot None None)\<lparr>calls :=
          [AnswerCallbackQuery (JObj [(''text'', JStr ''hi''), (''callback_query_id'', JStr ''17'')])]\<rparr>)"
  by (simp add: answerCallbackQuery_def argument_def typeof_def await_def return_def throw_def run_def
      new_bot_def accepting_def)

text \<open>
  Claim C10: once \<open>ready\<close>, with the chat resolved and initialized, \<open>deleteMessage\<close>
  loads the addressed messages (one \<open>getMessages\<close> request for the converted
  identifiers) and keeps the identifiers of those that are present and deletable for all
  users. With none it returns \<open>true\<close> and with more than 100 it throws, in both cases
  with the load as its last request; otherwise its one further request is
  \<open>deleteMessages\<close> for exactly the kept identifiers with \<open>revoke\<close> set, and it returns
  \<open>true\<close> when the transport answers \<open>ok\<close>.
\<close>

theorem deleteMessage_filters:
  assumes "ready s"
    and "checkChatId tr now_check now_store chat_id s = (Inr cid, s1)"
    and "initChatIfNeeded tr cid s1 = (Inr (), s2)"
    and "ids = map get_tdlib_message_id (case message_ids of Inl i \<Rightarrow> [i] | Inr l \<Rightarrow> l)"
    and "run_messages tr (calls s2) (GetMessages cid ids) = Inr messages"
    and "to_be_deleted = map (\<lambda>m. msg_id (the m)) (filter deletable messages)"
    and "s3 = s2\<lparr>calls := calls s2 @ [GetMessages cid ids]\<rparr>"
  shows "deleteMessage tr get_tdlib_message_id now_check now_store chat_id message_ids s =
     (if to_be_deleted = [] then (Inr True, s3)
      else if length to_be_deleted > 100 then (Inl (JsError ''Too many messages.''), s3)
      else (case run_result tr (calls s3) (DeleteMessages cid to_be_deleted True) of
              Inl e \<Rightarrow> Inl (TdFailure e)
            | Inr ret \<Rightarrow> if ret = Ok then Inr True else Inl (Thrown ret),
            s3\<lparr>calls := calls s3 @ [DeleteMessages cid to_be_deleted True]\<rparr>))"
proof -
  have load: "loadMessageBatch tr cid ids s2 = (Inr messages, s3)"
    using assms(5,7) by (simp add: loadMessageBatch_def run_getMessages_def)
  have "deleteMessage tr get_tdlib_message_id now_check now_store chat_id message_ids s =
      (if length to_be_deleted = 0 then return True
       else if length to_be_deleted > 100 then throw (JsError ''Too many messages.'')
       else await (run tr (DeleteMessages cid to_be_deleted True))
              (\<lambda>ret. if ret = Ok then return True else throw (Thrown ret))) s3"
    using assms(1,2,3) load unfolding assms(4) assms(6)
    by (simp add: deleteMessage_def await_def Let_def)
  then show ?thesis
    by (simp add: return_def throw_def await_def run_def split: sum.splits)
qed

theorem deleteMessage_filters_witness:
  "deleteMessage
     (listing [Some \<lparr>msg_id = 2097152, msg_chat_id = 5, can_be_deleted_for_all_users = True\<rparr>, None,
               Some \<lparr>msg_id = 4194304, msg_chat_id = 5, can_be_deleted_for_all_users = False\<rparr>])
     (\<lambda>i. i * 1048576) 0 0 (ChatNum 5) (Inr [2, 3, 4]) (on_ready (new_bot None None))
   = (Inr True,
      (on_ready (new_bot None None))
        \<lparr>calls := [GetChat 5, GetMessages 5 [2097152, 3145728, 4194304], DeleteMessages 5 [2097152] True],
         inited_chat := {5}\<rparr>)"
proof -
  let ?ms = "[Some \<lparr>msg_id = 2097152, msg_chat_id = 5, can_be_deleted_for_all_users = True\<rparr>, None,
               Some \<lparr>msg_id = 4194304, msg_chat_id = 5, can_be_deleted_for_all_users = False\<rparr>]"
  let ?s = "on_ready (new_bot None None)"
  let ?s2 = "?s\<lparr>calls := [GetChat 5], inited_chat := {5}\<rparr>"
  have r: "ready ?s" by (simp add: on_ready_def)
  have c: "checkChatId (listing ?ms) 0 0 (ChatNum 5) ?s = (Inr 5, ?s)" by (simp add: checkChatId_def)
  have i: "initChatIfNeeded (listing ?ms) 5 ?s = (Inr (), ?s2)"
    by (simp add: initChatIfNeeded_def await_def try_catch_def return_def run_def new_bot_def on_ready_def listing_def)
  have ids: "[2097152, 3145728, 4194304 :: int] = map (\<lambda>i. i * 1048576) (case Inr [2, 3, 4] of Inl i \<Rightarrow> [i] | Inr l \<Rightarrow> l)"
    by simp
  have g: "run_messages (listing ?ms) (calls ?s2) (GetMessages 5 [2097152, 3145728, 4194304]) = Inr ?ms"
    by (simp add: listing_def)
  have q: "[2097152] = map (\<lambda>m. msg_id (the m)) (filter deletable ?ms)"
    by (simp add: deletable_def)
  from deleteMessage_filters [OF r c i ids g q refl]
  show ?thesis by (simp add: listing_def new_bot_def on_ready_def)
qed

subsection \<open>The identity cache\<close>

lemma checkChatId_num: "checkChatId tr now now' (ChatNum n) s = (Inr n, s)"
  by (simp add: checkChatId_def)

lemma checkChatId_hit:
  assumes "username_match h = Some u"
    and "username_cache s u = Some e"
    and "now - timestamp e < username_cache_period s"
  shows "checkChatId tr now now' (ChatName h) s = (Inr (chat_ident (data e)), s)"
  using assms by (simp add: checkChatId_def try_catch_def)

lemma checkChatId_lookup:
  assumes "username_match h = Some u"
    and "username_cache s u = None \<or> (\<exists>e. username_cache s u = Some e \<and> \<not> now - timestamp e < username_cache_period s)"
  shows "checkChatId tr now now' (ChatName h) s =
     (case run_chat tr (calls s) (SearchPublicChat u) of
        Inl err \<Rightarrow>
          (Inl (if contains_text (td_message err) ''Too Many Requests'' then TdFailure err
                else JsError (''cannot resolve name: '' @ h)),
           s\<lparr>calls := calls s @ [SearchPublicChat u]\<rparr>)
      | Inr None \<Rightarrow>
          (Inl (JsError (''cannot resolve name: '' @ h)), s\<lparr>calls := calls s @ [SearchPublicChat u]\<rparr>)
      | Inr (Some c) \<Rightarrow>
          (Inr (chat_ident c),
           s\<lparr>calls := calls s @ [SearchPublicChat u],
             username_cache := (username_cache s)(u \<mapsto> \<lparr>data = c, timestamp = now'\<rparr>)\<rparr>))"
  using assms
  by (auto simp: checkChatId_def try_catch_def await_def run_searchPublicChat_def throw_def exn_message_def
      split: sum.splits option.splits)

lemma checkChatId_no_match:
  "username_match h = None \<Longrightarrow>
   checkChatId tr now now' (ChatName h) s = (Inl (JsError (''cannot resolve name: '' @ h)), s)"
  by (simp add: checkChatId_def try_catch_def exn_message_def throw_def)

lemma username_match_whole: "username_match h = Some u \<Longrightarrow> u = h"
  by (auto simp: username_match_def Let_def split: if_splits)

text \<open>
  Claim C7: let a non-numeric handle \<open>h\<close> be resolved by a lookup whose result is stored
  at time \<open>T\<close>, with cache period \<open>\<Delta>\<close>. A second resolution of \<open>h\<close> at a time before
  \<open>T + \<Delta>\<close> returns the cached identifier and leaves the state, the trace of requests
  included, unchanged, whatever the transport. A resolution at or after \<open>T + \<Delta>\<close> issues
  one \<open>searchPublicChat\<close> request for \<open>h\<close>, and when that answers a chat it returns its
  identifier and overwrites the entry of \<open>h\<close> with the chat and the new time.
\<close>

theorem username_cache_ttl:
  assumes first: "checkChatId tr t0 T (ChatName h) s = (Inr i, s1)"
    and looked_up: "calls s1 \<noteq> calls s"
    and period: "\<Delta> = username_cache_period s"
  shows "(now < T + \<Delta> \<longrightarrow> checkChatId tr' now now' (ChatName h) s1 = (Inr i, s1))
       \<and> (T + \<Delta> \<le> now \<longrightarrow>
            calls (snd (checkChatId tr' now now' (ChatName h) s1)) = calls s1 @ [SearchPublicChat h]
            \<and> (\<forall>c'. run_chat tr' (calls s1) (SearchPublicChat h) = Inr (Some c') \<longrightarrow>
                 checkChatId tr' now now' (ChatName h) s1 =
                   (Inr (chat_ident c'),
                    s1\<lparr>calls := calls s1 @ [SearchPublicChat h],
                       username_cache := (username_cache s1)(h \<mapsto> \<lparr>data = c', timestamp = now'\<rparr>)\<rparr>)))"
proof -
  have m: "username_match h = Some h"
  proof (cases "username_match h")
    case None
    with first show ?thesis by (simp add: checkChatId_no_match)
  next
    case (Some u)
    then show ?thesis using username_match_whole by simp
  qed
  have miss: "username_cache s h = None \<or>
      (\<exists>e. username_cache s h = Some e \<and> \<not> t0 - timestamp e < username_cache_period s)"
  proof (rule ccontr)
    assume "\<not> ?thesis"
    then obtain e where "username_cache s h = Some e" "t0 - timestamp e < username_cache_period s"
      by (cases "username_cache s h") auto
    with m first have "s1 = s" by (simp add: checkChatId_hit)
    with looked_up show False by simp
  qed
  from first obtain c where
    c: "i = chat_ident c"
      "s1 = s\<lparr>calls := calls s @ [SearchPublicChat h],
             username_cache := (username_cache s)(h \<mapsto> \<lparr>data = c, timestamp = T\<rparr>)\<rparr>"
    unfolding checkChatId_lookup [OF m miss]
    by (auto split: sum.splits option.splits)
  have entry: "username_cache s1 h = Some \<lparr>data = c, timestamp = T\<rparr>"
    and p1: "username_cache_period s1 = \<Delta>"
    using c period by simp_all
  have live: "checkChatId tr' now now' (ChatName h) s1 = (Inr i, s1)" if "now < T + \<Delta>"
    using checkChatId_hit [OF m entry, of now tr' now'] that p1 c(1) by simp
  have stale: "username_cache s1 h = None \<or>
      (\<exists>e. username_cache s1 h = Some e \<and> \<not> now - timestamp e < username_cache_period s1)"
    if "T + \<Delta> \<le> now"
    using entry p1 that by simp
  have expired: "calls (snd (checkChatId tr' now now' (ChatName h) s1)) = calls s1 @ [SearchPublicChat h]
            \<and> (\<forall>c'. run_chat tr' (calls s1) (SearchPublicChat h) = Inr (Some c') \<longrightarrow>
                 checkChatId tr' now now' (ChatName h) s1 =
                   (Inr (chat_ident c'),
                    s1\<lparr>calls := calls s1 @ [SearchPublicChat h],
                       username_cache := (username_cache s1)(h \<mapsto> \<lparr>data = c', timestamp = now'\<rparr>)\<rparr>))"
    if "T + \<Delta> \<le> now"
    unfolding checkChatId_lookup [OF m stale [OF that]]
    by (auto split: sum.splits option.splits)
  from live expired show ?thesis by blast
qed

theorem username_cache_ttl_witness:
  "checkChatId rejecting 1500 1500 (ChatName ''@example'')
      (snd (checkChatId accepting 1000 1000 (ChatName ''@example'') (new_bot (Some 1000) None)))
     = (Inr 777, snd (checkChatId accepting 1000 1000 (ChatName ''@example'') (new_bot (Some 1000) None)))
   \<and> calls (snd (checkChatId accepting 3000 3001 (ChatName ''@example'')
      (snd (checkChatId accepting 1000 1000 (ChatName ''@example'') (new_bot (Some 1000) None)))))
     = [SearchPublicChat ''@example'', SearchPublicChat ''@example'']"
proof -
  let ?s = "new_bot (Some 1000) None"
  let ?s1 = "snd (checkChatId accepting 1000 1000 (ChatName ''@example'') ?s)"
  have m: "username_match ''@example'' = Some ''@example''"
    by (simp add: username_match_def is_word_char_def)
  have l: "checkChatId accepting 1000 1000 (ChatName ''@example'') ?s =
     (Inr 777, ?s\<lparr>calls := [SearchPublicChat ''@example''],
        username_cache := (username_cache ?s)(''@example'' \<mapsto> \<lparr>data = \<lparr>chat_ident = 777\<rparr>, timestamp = 1000\<rparr>)\<rparr>)"
    by (subst checkChatId_lookup [OF m]) (simp_all add: new_bot_def accepting_def)
  have first: "checkChatId accepting 1000 1000 (ChatName ''@example'') ?s = (Inr 777, ?s1)"
    by (simp add: l)
  have looked: "calls ?s1 \<noteq> calls ?s" unfolding l by (simp add: new_bot_def)
  have p: "(1000::int) = username_cache_period ?s" by (simp add: new_bot_def)
  have c1: "calls ?s1 = [SearchPublicChat ''@example'']" by (simp add: l)
  from username_cache_ttl [OF first looked p, of 1500 rejecting 1500]
       username_cache_ttl [OF first looked p, of 3000 accepting 3001] c1
  show ?thesis by simp
qed

subsection \<open>The correlation registry\<close>

lemma invoke_eq: "invoke h payload s = s\<lparr>settled := settled s @ [outcome (wait_number h) payload]\<rparr>"
  by (cases h; cases payload) (simp_all add: outcome_def wait_number_def)

lemma fold_invoke:
  "fold (\<lambda>l. invoke (handler l) payload) ls s =
     s\<lparr>settled := settled s @ map (\<lambda>l. outcome (wait_number (handler l)) payload) ls\<rparr>"
  by (induction ls arbitrary: s) (simp_all add: invoke_eq)

lemma emit_eq:
  "emit name payload s =
     s\<lparr>listeners := filter (\<lambda>l. event l \<noteq> name) (listeners s),
       settled := settled s @ map (\<lambda>l. outcome (wait_number (handler l)) payload) (waits_on name s)\<rparr>"
  by (simp add: emit_def fold_invoke waits_on_def)

lemma filter_other_name:
  "filter (\<lambda>l. event l = name) ls = [] \<Longrightarrow> filter (\<lambda>l. event l \<noteq> name) ls = ls"
  by (induction ls) (auto split: if_splits)

lemma emit_no_wait: "waits_on name s = [] \<Longrightarrow> emit name payload s = s"
  by (simp add: emit_eq filter_other_name waits_on_def)

lemma waits_on_emit: "waits_on name (emit name payload s) = []"
  by (simp add: emit_eq waits_on_def)

lemma emit_emit: "emit name payload' (emit name payload s) = emit name payload s"
  by (rule emit_no_wait) (rule waits_on_emit)

lemma filter_swap: "filter P (filter Q xs) = filter Q (filter P xs)"
  by (induction xs) auto

lemma settle_filter:
  "filter (\<lambda>x. fst x = n) (map (\<lambda>l. outcome (wait_number (handler l)) payload) xs)
     = map (\<lambda>l. outcome n payload) (filter (\<lambda>l. handler l = SendWait n) xs)"
  by (induction xs) (auto simp: outcome_def wait_number_def split: send_result.splits handler.splits)

lemma pending_listener:
  assumes "pending name n s"
  obtains y where "filter (\<lambda>l. handler l = SendWait n) (listeners s) = [y]" and "event y = name"
  using assms by (auto simp: pending_def)

lemma pending_registered:
  assumes "pending name n s"
  shows "filter (\<lambda>x. fst x = n) (map (\<lambda>l. outcome (wait_number (handler l)) payload) (waits_on name s))
           = [outcome n payload]"
proof -
  from assms obtain y where y: "filter (\<lambda>l. handler l = SendWait n) (listeners s) = [y]" "event y = name"
    by (rule pending_listener)
  have "filter (\<lambda>l. handler l = SendWait n) (waits_on name s)
          = filter (\<lambda>l. event l = name) (filter (\<lambda>l. handler l = SendWait n) (listeners s))"
    unfolding waits_on_def by (rule filter_swap)
  also have "\<dots> = [y]" unfolding y(1) using y(2) by simp
  finally show ?thesis unfolding settle_filter by simp
qed

lemma fst_outcome: "fst (outcome n payload) = n"
  by (simp add: outcome_def split: send_result.splits)

lemma deliver_pending:
  assumes "pending name n s"
  shows "settlements_of n (emit name payload s) = [snd (outcome n payload)]"
    and "filter (\<lambda>l. handler l = SendWait n) (listeners (emit name payload s)) = []"
proof -
  from assms have "settlements_of n s = []" by (simp add: pending_def)
  then have "filter (\<lambda>x. fst x = n) (settled s) = []" by (simp add: settlements_of_def)
  then show "settlements_of n (emit name payload s) = [snd (outcome n payload)]"
    by (simp add: settlements_of_def emit_eq pending_registered [OF assms])
  from assms obtain y where y: "filter (\<lambda>l. handler l = SendWait n) (listeners s) = [y]" "event y = name"
    by (rule pending_listener)
  have "filter (\<lambda>l. handler l = SendWait n) (filter (\<lambda>l. event l \<noteq> name) (listeners s))
          = filter (\<lambda>l. event l \<noteq> name) (filter (\<lambda>l. handler l = SendWait n) (listeners s))"
    by (rule filter_swap)
  also have "\<dots> = []" unfolding y(1) using y(2) by simp
  finally show "filter (\<lambda>l. handler l = SendWait n) (listeners (emit name payload s)) = []"
    by (simp add: emit_eq del: filter_filter)
qed

lemma register_created:
  "promises_created s \<Longrightarrow> promises_created (snd (waitMessageTillSent chat_id message_id s))"
  by (auto simp: promises_created_def waitMessageTillSent_def once_def wait_number_def list_all_iff)

lemma emit_created: "promises_created s \<Longrightarrow> promises_created (emit name payload s)"
  by (auto simp: promises_created_def emit_eq list_all_iff fst_outcome waits_on_def)

lemma new_bot_created: "promises_created (new_bot period key)"
  by (simp add: promises_created_def new_bot_def)

lemma register_pending:
  assumes "promises_created s"
  shows "pending (sendMsg_event chat_id message_id) (promise_count s)
           (snd (waitMessageTillSent chat_id message_id s))"
proof -
  have "filter (\<lambda>l. handler l = SendWait (promise_count s)) (listeners s) = []"
    using assms by (auto simp: promises_created_def list_all_iff filter_empty_conv wait_number_def)
  moreover have "filter (\<lambda>x. fst x = promise_count s) (settled s) = []"
    using assms by (auto simp: promises_created_def list_all_iff filter_empty_conv)
  ultimately show ?thesis
    by (simp add: pending_def waitMessageTillSent_def once_def settlements_of_def)
qed

lemma register_keeps_pending:
  assumes "pending name n s" "promises_created s"
  shows "pending name n (snd (waitMessageTillSent chat_id message_id s))"
proof -
  have "n \<noteq> promise_count s"
  proof
    assume "n = promise_count s"
    with assms(2) have "filter (\<lambda>l. handler l = SendWait n) (listeners s) = []"
      by (auto simp: promises_created_def list_all_iff filter_empty_conv wait_number_def)
    with assms(1) show False by (simp add: pending_def)
  qed
  with assms(1) show ?thesis
    by (simp add: pending_def waitMessageTillSent_def once_def settlements_of_def)
qed

lemma emit_other_keeps_pending:
  assumes "pending name n s" "name' \<noteq> name"
  shows "pending name n (emit name' payload s)"
proof -
  from assms(1) obtain y where y: "filter (\<lambda>l. handler l = SendWait n) (listeners s) = [y]" "event y = name"
    by (rule pending_listener)
  have "filter (\<lambda>l. handler l = SendWait n) (filter (\<lambda>l. event l \<noteq> name') (listeners s))
          = filter (\<lambda>l. event l \<noteq> name') (filter (\<lambda>l. handler l = SendWait n) (listeners s))"
    by (rule filter_swap)
  also have "\<dots> = [y]" unfolding y(1) using y(2) assms(2) by simp
  finally have a: "filter (\<lambda>l. handler l = SendWait n) (filter (\<lambda>l. event l \<noteq> name') (listeners s)) = [y]" .
  have "filter (\<lambda>l. handler l = SendWait n) (waits_on name' s)
          = filter (\<lambda>l. event l = name') (filter (\<lambda>l. handler l = SendWait n) (listeners s))"
    unfolding waits_on_def by (rule filter_swap)
  also have "\<dots> = []" unfolding y(1) using y(2) assms(2) by simp
  finally have b: "filter (\<lambda>l. handler l = SendWait n) (waits_on name' s) = []" .
  from assms(1) have "filter (\<lambda>x. fst x = n) (settled s) = []"
    by (simp add: pending_def settlements_of_def)
  then show ?thesis
    using y(2) by (simp add: pending_def emit_eq settlements_of_def settle_filter a b del: filter_filter)
qed

text \<open>
  Claim C1: let a send-wait be pending under the event name of \<open>(chat_id, message_id)\<close>.
  A send-succeeded update for that pair resolves its promise, and a send-failed update
  rejects it: in the state after the update the promise has exactly one settlement.
  The closure of the wait is no longer registered anywhere, no wait is left under the
  name, and a second update for the pair, of either kind, leaves that state as it is.
\<close>

theorem send_wait_settled_once:
  assumes "pending (sendMsg_event chat_id message_id) n s"
    and "msg_chat_id (upd_message u) = chat_id" and "old_message_id u = message_id"
    and "msg_chat_id (upd_message u') = chat_id" and "old_message_id u' = message_id"
    and "s_ok = on_updateMessageSendSucceeded u s"
    and "s_failed = on_updateMessageSendFailed u s"
  shows "settlements_of n s_ok = [Resolved (upd_message u)]
       \<and> settlements_of n s_failed =
           [Rejected (JsError (js_int_string (error_code u) @ '': '' @ error_message u))]
       \<and> filter (\<lambda>l. handler l = SendWait n) (listeners s_ok) = []
       \<and> filter (\<lambda>l. handler l = SendWait n) (listeners s_failed) = []
       \<and> waits_on (sendMsg_event chat_id message_id) s_ok = []
       \<and> waits_on (sendMsg_event chat_id message_id) s_failed = []
       \<and> on_updateMessageSendSucceeded u' s_ok = s_ok
       \<and> on_updateMessageSendFailed u' s_ok = s_ok
       \<and> on_updateMessageSendSucceeded u' s_failed = s_failed
       \<and> on_updateMessageSendFailed u' s_failed = s_failed"
  using assms(2-7) deliver_pending [OF assms(1)]
  by (simp add: on_updateMessageSendSucceeded_def on_updateMessageSendFailed_def outcome_def
      waits_on_emit emit_emit)

theorem send_wait_settled_once_witness:
  "settlements_of 0 (on_updateMessageSendSucceeded sample_update
       (snd (waitMessageTillSent 42 7 (new_bot None None))))
     = [Resolved (upd_message sample_update)]
   \<and> on_updateMessageSendFailed sample_update
       (on_updateMessageSendSucceeded sample_update (snd (waitMessageTillSent 42 7 (new_bot None None))))
     = on_updateMessageSendSucceeded sample_update (snd (waitMessageTillSent 42 7 (new_bot None None)))"
proof -
  have p: "pending (sendMsg_event 42 7) 0 (snd (waitMessageTillSent 42 7 (new_bot None None)))"
    using register_pending [OF new_bot_created, of 42 7 None None] by (simp add: new_bot_def)
  have k: "msg_chat_id (upd_message sample_update) = 42" "old_message_id sample_update = 7"
    by (simp_all add: sample_update_def)
  from send_wait_settled_once [OF p k k refl refl] show ?thesis by simp
qed

text \<open>
  Claim C9: an update for a pair under whose event name no wait is registered leaves
  the whole state as it is, the registry and the settlements included; the handlers
  are total functions of the update and the state, so nothing is raised.
\<close>

theorem deliver_unregistered_noop:
  assumes "waits_on (sendMsg_event (msg_chat_id (upd_message u)) (old_message_id u)) s = []"
  shows "on_updateMessageSendSucceeded u s = s \<and> on_updateMessageSendFailed u s = s"
  using assms by (simp add: on_updateMessageSendSucceeded_def on_updateMessageSendFailed_def emit_no_wait)

theorem deliver_unregistered_noop_witness:
  "on_updateMessageSendSucceeded sample_update (new_bot None None) = new_bot None None
   \<and> on_updateMessageSendFailed sample_update (new_bot None None) = new_bot None None"
proof -
  have "waits_on (sendMsg_event (msg_chat_id (upd_message sample_update)) (old_message_id sample_update))
          (new_bot None None) = []"
    by (simp add: waits_on_def new_bot_def)
  from deliver_unregistered_noop [OF this] show ?thesis .
qed

text \<open>
  Claim C3, as stated (a second register of a key that is already registered fails the
  second caller at once and creates no concurrent wait), fails: after two calls of
  \<open>_waitMessageTillSent(42, 7)\<close> on a new \<open>Bot\<close> two waits are registered under the one
  event name, the second call has returned its promise, and no promise has been
  rejected.
\<close>

theorem duplicate_register_counterexample:
  "map handler (waits_on (sendMsg_event 42 7)
      (snd (waitMessageTillSent 42 7 (snd (waitMessageTillSent 42 7 (new_bot None None))))))
     = [SendWait 0, SendWait 1]
   \<and> fst (waitMessageTillSent 42 7 (snd (waitMessageTillSent 42 7 (new_bot None None)))) = 1
   \<and> settled (snd (waitMessageTillSent 42 7 (snd (waitMessageTillSent 42 7 (new_bot None None))))) = []"
  by (simp add: waits_on_def waitMessageTillSent_def once_def new_bot_def)

text \<open>
  Claim C3, amended: a second register of a key that is already registered does not
  fail. It adds a second wait under the same event name, beside the first; both are
  pending, and the next update for the key settles both promises with the same outcome
  and leaves no wait under the name.
\<close>

theorem duplicate_register_adds_wait:
  assumes "promises_created s"
    and "waitMessageTillSent chat_id message_id s = (n1, s1)"
    and "waitMessageTillSent chat_id message_id s1 = (n2, s2)"
    and "msg_chat_id (upd_message u) = chat_id" and "old_message_id u = message_id"
    and "s_ok = on_updateMessageSendSucceeded u s2"
    and "s_failed = on_updateMessageSendFailed u s2"
  shows "n1 \<noteq> n2
       \<and> pending (sendMsg_event chat_id message_id) n1 s2
       \<and> pending (sendMsg_event chat_id message_id) n2 s2
       \<and> settlements_of n1 s_ok = [Resolved (upd_message u)]
       \<and> settlements_of n2 s_ok = [Resolved (upd_message u)]
       \<and> settlements_of n1 s_failed =
           [Rejected (JsError (js_int_string (error_code u) @ '': '' @ error_message u))]
       \<and> settlements_of n2 s_failed =
           [Rejected (JsError (js_int_string (error_code u) @ '': '' @ error_message u))]
       \<and> waits_on (sendMsg_event chat_id message_id) s_ok = []
       \<and> waits_on (sendMsg_event chat_id message_id) s_failed = []"
proof -
  from assms(2) have n1: "n1 = promise_count s" and s1: "s1 = snd (waitMessageTillSent chat_id message_id s)"
    by (auto simp: waitMessageTillSent_def)
  from assms(3) have n2: "n2 = promise_count s1" and s2: "s2 = snd (waitMessageTillSent chat_id message_id s1)"
    by (auto simp: waitMessageTillSent_def)
  have c1: "promises_created s1" using assms(1) s1 by (simp add: register_created)
  have p1: "pending (sendMsg_event chat_id message_id) n1 s1"
    using register_pending [OF assms(1)] n1 s1 by simp
  have p12: "pending (sendMsg_event chat_id message_id) n1 s2"
    using register_keeps_pending [OF p1 c1] s2 by simp
  have p22: "pending (sendMsg_event chat_id message_id) n2 s2"
    using register_pending [OF c1] n2 s2 by simp
  have "n1 \<noteq> n2" using n1 n2 s1 by (simp add: waitMessageTillSent_def once_def)
  with p12 p22 deliver_pending(1) [OF p12] deliver_pending(1) [OF p22] assms(4-7)
  show ?thesis
    by (simp add: on_updateMessageSendSucceeded_def on_updateMessageSendFailed_def outcome_def waits_on_emit)
qed

theorem duplicate_register_adds_wait_witness:
  "settlements_of 0 (on_updateMessageSendSucceeded sample_update
       (snd (waitMessageTillSent 42 7 (snd (waitMessageTillSent 42 7 (new_bot None None))))))
     = [Resolved (upd_message sample_update)]
   \<and> settlements_of 1 (on_updateMessageSendSucceeded sample_update
       (snd (waitMessageTillSent 42 7 (snd (waitMessageTillSent 42 7 (new_bot None None))))))
     = [Resolved (upd_message sample_update)]"
proof -
  let ?s1 = "snd (waitMessageTillSent 42 7 (new_bot None None))"
  let ?s2 = "snd (waitMessageTillSent 42 7 ?s1)"
  have r1: "waitMessageTillSent 42 7 (new_bot None None) = (0, ?s1)"
    by (simp add: waitMessageTillSent_def new_bot_def)
  have r2: "waitMessageTillSent 42 7 ?s1 = (1, ?s2)"
    by (simp add: waitMessageTillSent_def once_def new_bot_def)
  have k: "msg_chat_id (upd_message sample_update) = 42" "old_message_id sample_update = 7"
    by (simp_all add: sample_update_def)
  from duplicate_register_adds_wait [OF new_bot_created r1 r2 k refl refl] show ?thesis by simp
qed

subsection \<open>The payload cipher\<close>

lemma b64_alphabet:
  "map b64_char [0..<64] = ''ABCDEFGHIJKLMNOPQRSTUVWXYZabcdefghijklmnopqrstuvwxyz0123456789+/''"
  by code_simp

lemma b64_encode_Man: "b64_encode [77, 97, 110] = ''TWFu'' \<and> b64_encode [77, 97] = ''TWE='' \<and> b64_encode [77] = ''TQ==''"
  by code_simp

lemma unbase64_b64_char: "n < 64 \<Longrightarrow> unbase64 (b64_char n) = Some n"
  by (auto simp: unbase64_def b64_char_def Let_def)

lemma b64_char_not_pad: "n < 64 \<Longrightarrow> b64_char n \<noteq> CHR ''=''"
  by (auto simp: b64_char_def dest: arg_cong [where f = "of_char :: char \<Rightarrow> nat"])

lemma sextets_char: "n < 64 \<Longrightarrow> b64_sextets (b64_char n # cs) = n # b64_sextets cs"
  by (simp add: unbase64_b64_char b64_char_not_pad)

lemma sextets_pad: "b64_sextets (CHR ''='' # cs) = []"
  by simp

lemma byte_bound: "unat (a :: byte) < 256"
proof -
  have "unat a < 2 ^ LENGTH(8)" by (rule unsigned_less)
  then show ?thesis by simp
qed

lemma sextet_bounds:
  "unat (a :: byte) div 4 < 64"
  "(unat a mod 4) * 16 + unat (b :: byte) div 16 < 64"
  "(unat b mod 16) * 4 + unat (c :: byte) div 64 < 64"
  "unat c mod 64 < 64"
  "(unat a mod 4) * 16 < 64"
  "(unat b mod 16) * 4 < 64"
  using byte_bound [of a] byte_bound [of b] byte_bound [of c] by simp_all

lemma small_div: "(x::nat) < 16 \<Longrightarrow> (k * 16 + x) div 16 = k"
  by simp

lemma small_mod: "(x::nat) < 16 \<Longrightarrow> (k * 16 + x) mod 16 = x"
  by simp

lemma small_div4: "(x::nat) < 4 \<Longrightarrow> (k * 4 + x) div 4 = k"
  by simp

lemma small_mod4: "(x::nat) < 4 \<Longrightarrow> (k * 4 + x) mod 4 = x"
  by simp

lemma regroup:
  fixes a b c :: nat
  assumes "a < 256" "b < 256" "c < 256"
  shows "(a div 4) * 4 + ((a mod 4) * 16 + b div 16) div 16 = a"
    and "(((a mod 4) * 16 + b div 16) mod 16) * 16 + ((b mod 16) * 4 + c div 64) div 4 = b"
    and "(((b mod 16) * 4 + c div 64) mod 4) * 64 + c mod 64 = c"
    and "(a div 4) * 4 + ((a mod 4) * 16) div 16 = a"
    and "(((a mod 4) * 16 + b div 16) mod 16) * 16 + ((b mod 16) * 4) div 4 = b"
proof -
  have b16: "b div 16 < 16" and c64: "c div 64 < 4"
    using assms by simp_all
  show "(a div 4) * 4 + ((a mod 4) * 16 + b div 16) div 16 = a"
    by (simp add: small_div [OF b16])
  show "(((a mod 4) * 16 + b div 16) mod 16) * 16 + ((b mod 16) * 4 + c div 64) div 4 = b"
    by (simp add: small_mod [OF b16] small_div4 [OF c64] mod_less [OF b16])
  show "(((b mod 16) * 4 + c div 64) mod 4) * 64 + c mod 64 = c"
    by (simp add: small_mod4 [OF c64] mod_less [OF c64])
  show "(a div 4) * 4 + ((a mod 4) * 16) div 16 = a"
    by simp
  show "(((a mod 4) * 16 + b div 16) mod 16) * 16 + ((b mod 16) * 4) div 4 = b"
    by (simp add: small_mod [OF b16] mod_less [OF b16])
qed

lemma b64_group3:
  "b64_bytes (unat a div 4 # ((unat a mod 4) * 16 + unat b div 16) #
       ((unat b mod 16) * 4 + unat c div 64) # (unat c mod 64) # rest)
     = a # b # c # b64_bytes rest"
  using regroup(1-3) [OF byte_bound [of a] byte_bound [of b] byte_bound [of c]]
  by simp

lemma b64_group2:
  "b64_bytes [unat a div 4, (unat a mod 4) * 16 + unat b div 16, (unat b mod 16) * 4] = [a, b]"
  using regroup(1,5) [OF byte_bound [of a] byte_bound [of b] byte_bound [of b]]
  by simp

lemma b64_group1:
  "b64_bytes [unat a div 4, (unat a mod 4) * 16] = [a]"
  using regroup(4) [OF byte_bound [of a] byte_bound [of a] byte_bound [of a]]
  by simp

lemma b64_roundtrip: "b64_decode (b64_encode bs) = bs"
  unfolding b64_decode_def
proof (induction bs rule: b64_encode.induct)
  case (1 a b c rest)
  then show ?case
    by (simp add: sextets_char sextet_bounds b64_group3 del: b64_bytes.simps b64_sextets.simps)
next
  case (2 a b)
  show ?case
    by (simp add: sextets_char sextets_pad sextet_bounds b64_group2 del: b64_bytes.simps b64_sextets.simps)
next
  case (3 a)
  show ?case
    by (simp add: sextets_char sextets_pad sextet_bounds b64_group1 del: b64_bytes.simps b64_sextets.simps)
next
  case 4
  show ?case by simp
qed

lemma b64_encode_inj: "b64_encode xs = b64_encode ys \<Longrightarrow> xs = ys"
  by (metis b64_roundtrip)

lemma xor_bytes_length: "length (xor_bytes a b) = min (length a) (length b)"
  by (simp add: xor_bytes_def)

lemma xor_bytes_cancel: "length a \<le> length ks \<Longrightarrow> xor_bytes (xor_bytes a ks) ks = a"
  unfolding xor_bytes_def
proof (induction a arbitrary: ks)
  case Nil
  then show ?case by simp
next
  case (Cons x a)
  then obtain k ks' where "ks = k # ks'" by (cases ks) auto
  with Cons show ?case by (simp add: xor.assoc)
qed

declare cfb_encrypt.simps [simp del] cfb_decrypt.simps [simp del]

lemma cfb_encrypt_Nil: "cfb_encrypt E key prev [] = []"
  by (subst cfb_encrypt.simps) simp

lemma cfb_decrypt_step:
  "cs \<noteq> [] \<Longrightarrow>
   cfb_decrypt E key prev cs =
     xor_bytes (take 16 cs) (E key prev) @ cfb_decrypt E key (take 16 cs) (drop 16 cs)"
  by (subst cfb_decrypt.simps) simp

lemma cfb_roundtrip:
  "(\<And>k b. length (E k b) = 16) \<Longrightarrow> cfb_decrypt E key prev (cfb_encrypt E key prev p) = p"
proof (induction E key prev p rule: cfb_encrypt.induct)
  case (1 E key prev p)
  show ?case
  proof (cases "p = []")
    case True
    then show ?thesis
      by (simp add: cfb_encrypt_Nil) (subst cfb_decrypt.simps, simp)
  next
    case False
    define c where "c = xor_bytes (take 16 p) (E key prev)"
    define r where "r = cfb_encrypt E key c (drop 16 p)"
    have len: "length c = min (length p) 16"
      by (simp add: c_def xor_bytes_length "1.prems")
    have c_ne: "c @ r \<noteq> []" using False len by (cases p) auto
    have enc: "cfb_encrypt E key prev p = c @ r"
      by (subst cfb_encrypt.simps) (simp add: False c_def r_def Let_def)
    have IH: "cfb_decrypt E key c r = drop 16 p"
      unfolding r_def using "1.IH" [OF False c_def] "1.prems" by simp
    have parts: "take 16 (c @ r) = c" "drop 16 (c @ r) = r"
    proof -
      show "take 16 (c @ r) = c"
      proof (cases "16 \<le> length p")
        case True
        with len have "length c = 16" by simp
        then show ?thesis by simp
      next
        case short: False
        then have "r = []" by (simp add: r_def cfb_encrypt_Nil)
        moreover from short len have "length c < 16" by simp
        ultimately show ?thesis by simp
      qed
      show "drop 16 (c @ r) = r"
      proof (cases "16 \<le> length p")
        case True
        with len have "length c = 16" by simp
        then show ?thesis by simp
      next
        case short: False
        then have "r = []" by (simp add: r_def cfb_encrypt_Nil)
        moreover from short len have "length c < 16" by simp
        ultimately show ?thesis by simp
      qed
    qed
    have undo: "xor_bytes c (E key prev) = take 16 p"
      unfolding c_def by (rule xor_bytes_cancel) (simp add: "1.prems")
    have "cfb_decrypt E key prev (c @ r) =
            xor_bytes (take 16 (c @ r)) (E key prev) @ cfb_decrypt E key (take 16 (c @ r)) (drop 16 (c @ r))"
      by (rule cfb_decrypt_step [OF c_ne])
    then have "cfb_decrypt E key prev (c @ r) = xor_bytes c (E key prev) @ cfb_decrypt E key c r"
      by (simp only: parts)
    then show ?thesis by (simp add: enc undo IH)
  qed
qed

lemma cfb_encrypt_length:
  "(\<And>k b. length (E k b) = 16) \<Longrightarrow> length (cfb_encrypt E key prev p) = length p"
proof (induction E key prev p rule: cfb_encrypt.induct)
  case (1 E key prev p)
  show ?case
  proof (cases "p = []")
    case True
    then show ?thesis by (simp add: cfb_encrypt_Nil)
  next
    case False
    have "length (cfb_encrypt E key (xor_bytes (take 16 p) (E key prev)) (drop 16 p)) = length (drop 16 p)"
      using "1.IH" [OF False refl] "1.prems" by simp
    then show ?thesis
      by (subst cfb_encrypt.simps) (simp add: False Let_def xor_bytes_length "1.prems")
  qed
qed

text \<open>
  Claim C8: with encryption enabled (a key is set), an IV of 16 bytes and a plaintext
  \<open>p\<close> of at most 48 bytes, the token is the base-64 text of the IV followed by the
  ciphertext; the first 16 bytes of the decoded token are the IV; decrypting the token
  gives \<open>p\<close> back; and an encryption of the same \<open>p\<close> under another IV gives another
  token. The block function is any function to 16-byte blocks.
\<close>

theorem callback_data_roundtrip:
  assumes block: "\<And>k b. length (E k b) = 16"
    and key: "encrypt_callback_query s = Some key"
    and iv: "length iv = 16" and iv': "length iv' = 16"
    and size: "length p \<le> 48"
    and token: "token = b64_encode (iv @ cfb_encrypt E key iv p)"
  shows "parseReplyMarkup_callback_data E s iv p = Inr token
       \<and> take 16 (b64_decode token) = iv
       \<and> processIncomingCallbackQuery_data E s token = Some p
       \<and> (iv' \<noteq> iv \<longrightarrow> parseReplyMarkup_callback_data E s iv' p \<noteq> Inr token)"
proof -
  have enc: "parseReplyMarkup_callback_data E s iv p = Inr token"
    using key size token by (simp add: parseReplyMarkup_callback_data_def)
  have dec: "b64_decode token = iv @ cfb_encrypt E key iv p"
    by (simp add: token b64_roundtrip)
  have parts: "take 16 (b64_decode token) = iv" "drop 16 (b64_decode token) = cfb_encrypt E key iv p"
    using iv by (simp_all add: dec)
  have dec_ok: "processIncomingCallbackQuery_data E s token = Some p"
    unfolding processIncomingCallbackQuery_data_def Let_def key parts
    by (simp add: iv cfb_roundtrip [of E, OF block])
  have fresh: "parseReplyMarkup_callback_data E s iv' p \<noteq> Inr token" if "iv' \<noteq> iv"
  proof
    assume "parseReplyMarkup_callback_data E s iv' p = Inr token"
    then have "b64_encode (iv' @ cfb_encrypt E key iv' p) = b64_encode (iv @ cfb_encrypt E key iv p)"
      using key size token by (simp add: parseReplyMarkup_callback_data_def)
    then have "iv' @ cfb_encrypt E key iv' p = iv @ cfb_encrypt E key iv p"
      by (rule b64_encode_inj)
    with iv iv' have "iv' = iv" by simp
    with that show False by simp
  qed
  from enc parts(1) dec_ok fresh show ?thesis by simp
qed

theorem callback_data_roundtrip_witness:
  "parseReplyMarkup_callback_data sample_block (new_bot None (Some sample_key)) sample_iv sample_plaintext
     = Inr ''AAECAwQFBgcICQoLDA0OD3FnfW8xdWh9''
   \<and> processIncomingCallbackQuery_data sample_block (new_bot None (Some sample_key))
       ''AAECAwQFBgcICQoLDA0OD3FnfW8xdWh9'' = Some sample_plaintext"
proof -
  have block: "length (sample_block k b) = 16" for k b
    by (simp add: sample_block_def)
  have key: "encrypt_callback_query (new_bot None (Some sample_key)) = Some sample_key"
    by (simp add: new_bot_def)
  have iv: "length sample_iv = 16" by (simp add: sample_iv_def)
  have size: "length sample_plaintext \<le> 48" by (simp add: sample_plaintext_def)
  have token: "''AAECAwQFBgcICQoLDA0OD3FnfW8xdWh9''
      = b64_encode (sample_iv @ cfb_encrypt sample_block sample_key sample_iv sample_plaintext)"
    by code_simp
  from callback_data_roundtrip [of sample_block, OF block key iv iv size token]
  show ?thesis by simp
qed

subsection \<open>Event names\<close>

declare digits.simps [simp del]

lemma digits_small: "n < 10 \<Longrightarrow> digits n = [digit_char n]"
  by (subst digits.simps) simp

lemma digits_large: "\<not> n < 10 \<Longrightarrow> digits n = digits (n div 10) @ [digit_char (n mod 10)]"
  by (subst digits.simps) simp

lemma digit_char_value: "k < 10 \<Longrightarrow> (of_char (digit_char k) :: nat) = 48 + k"
  by (simp add: digit_char_def)

lemma digits_value_digits: "digits_value (digits n) = n"
proof (induction n rule: digits.induct)
  case (1 n)
  show ?case
  proof (cases "n < 10")
    case True
    then show ?thesis by (simp add: digits_small digits_value_def digit_char_value)
  next
    case False
    with 1 have "digits_value (digits (n div 10)) = n div 10" by simp
    then show ?thesis
      using False by (simp add: digits_large digits_value_def digit_char_value)
  qed
qed

lemma digits_inj: "digits n = digits m \<Longrightarrow> n = m"
  by (metis digits_value_digits)

lemma digits_chars: "c \<in> set (digits n) \<Longrightarrow> 48 \<le> (of_char c :: nat) \<and> (of_char c :: nat) \<le> 57"
proof (induction n rule: digits.induct)
  case (1 n)
  show ?case
  proof (cases "n < 10")
    case True
    with "1.prems" show ?thesis by (auto simp: digits_small digit_char_value)
  next
    case False
    with "1.prems" have "c \<in> set (digits (n div 10)) \<or> c = digit_char (n mod 10)"
      by (auto simp: digits_large)
    then show ?thesis
    proof
      assume "c \<in> set (digits (n div 10))"
      with False "1.IH" show ?thesis by simp
    next
      assume "c = digit_char (n mod 10)"
      then show ?thesis by (simp add: digit_char_value)
    qed
  qed
qed

lemma digits_not_Nil: "digits n \<noteq> []"
  by (cases "n < 10") (simp_all add: digits_small digits_large)

lemma js_int_string_chars:
  "c \<in> set (js_int_string i) \<Longrightarrow> c \<noteq> CHR '':''"
  using digits_chars [of c] by (auto simp: js_int_string_def split: if_splits)

lemma digits_hd_not_minus: "digits n \<noteq> CHR ''-'' # cs"
proof
  assume "digits n = CHR ''-'' # cs"
  then have "CHR ''-'' \<in> set (digits n)" by simp
  from digits_chars [OF this] show False by simp
qed

lemma js_int_string_inj: "js_int_string i = js_int_string j \<Longrightarrow> i = j"
proof -
  assume eq: "js_int_string i = js_int_string j"
  consider "i < 0" "j < 0" | "i < 0" "\<not> j < 0" | "\<not> i < 0" "j < 0" | "\<not> i < 0" "\<not> j < 0"
    by blast
  then show "i = j"
  proof cases
    case 1
    with eq have "digits (nat (- i)) = digits (nat (- j))" by (simp add: js_int_string_def)
    then have "nat (- i) = nat (- j)" by (rule digits_inj)
    with 1 show ?thesis by simp
  next
    case 2
    with eq have "digits (nat j) = CHR ''-'' # digits (nat (- i))" by (simp add: js_int_string_def)
    with digits_hd_not_minus show ?thesis by blast
  next
    case 3
    with eq have "digits (nat i) = CHR ''-'' # digits (nat (- j))" by (simp add: js_int_string_def)
    with digits_hd_not_minus show ?thesis by blast
  next
    case 4
    with eq have "digits (nat i) = digits (nat j)" by (simp add: js_int_string_def)
    then have "nat i = nat j" by (rule digits_inj)
    with 4 show ?thesis by simp
  qed
qed

lemma sendMsg_event_inj:
  assumes "sendMsg_event c m = sendMsg_event c' m'"
  shows "c = c' \<and> m = m'"
proof -
  from assms have eq: "js_int_string c @ CHR '':'' # js_int_string m
      = js_int_string c' @ CHR '':'' # js_int_string m'"
    unfolding sendMsg_event_def by simp
  have n1: "CHR '':'' \<notin> set (js_int_string c)" and n2: "CHR '':'' \<notin> set (js_int_string m)"
    using js_int_string_chars by blast+
  have "js_int_string c = js_int_string c' \<and> js_int_string m = js_int_string m'"
    by (rule iffD1 [OF append_Cons_eq_iff [OF n1 n2] eq])
  then show ?thesis by (simp add: js_int_string_inj)
qed

lemma sendMsg_event_sample: "sendMsg_event (- 42) 7 = ''_sendMsg:-42:7''"
  by (simp add: sendMsg_event_def js_int_string_def digits_small digits_large digit_char_def char_of_def bit_0)

subsection \<open>Further properties\<close>

text \<open>
  Property X1: for a chat identifier other than \<open>- 10^12\<close> that is not yet initialized
  and whose probe is rejected, the requests that follow the probe are the descriptor
  fetch of the context-id encoding and then, unless the fetch is rejected, its creation
  call.
\<close>

theorem kind_requests_follow_encoding:
  assumes "chat_id \<notin> inited_chat s"
    and "run_result tr (calls s) (GetChat chat_id) = Inl e0"
    and "chat_id \<noteq> - (10 ^ 12)"
  shows "\<exists>cs. calls (snd (initChatIfNeeded tr chat_id s))
                = calls s @ GetChat chat_id # spec_descriptor_request chat_id # cs
              \<and> (cs = [] \<or> cs = [spec_creation_request chat_id])"
proof -
  have d: "descriptor_request chat_id = spec_descriptor_request chat_id"
    using assms(3) by (rule descriptor_request_spec)
  have c: "creation_request chat_id = spec_creation_request chat_id"
    using assms(3)
    by (simp add: creation_request_def spec_creation_request_def spec_context_kind_def)
  show ?thesis
    unfolding init_probe_failed [OF assms(1,2)] d c
    by (simp split: sum.splits)
qed

theorem kind_requests_follow_encoding_witness:
  "calls (snd (initChatIfNeeded rejecting (- 1000000000001) (new_bot None None)))
     = [GetChat (- 1000000000001), GetSupergroup 1]"
proof -
  have a: "- 1000000000001 \<notin> inited_chat (new_bot None None)" by (simp add: new_bot_def)
  have b: "run_result rejecting (calls (new_bot None None)) (GetChat (- 1000000000001))
             = Inl (TdError 400 ''Chat not found'')"
    by (simp add: rejecting_def)
  have c: "(- 1000000000001 :: int) \<noteq> - (10 ^ 12)" by simp
  have r: "run_result rejecting t (GetSupergroup 1) = Inl (TdError 400 ''Chat not found'')" for t
    by (simp add: rejecting_def)
  from kind_requests_follow_encoding [OF a b c]
  obtain cs where cs: "calls (snd (initChatIfNeeded rejecting (- 1000000000001) (new_bot None None)))
      = calls (new_bot None None) @ GetChat (- 1000000000001) # spec_descriptor_request (- 1000000000001) # cs"
    by blast
  have "calls (snd (initChatIfNeeded rejecting (- 1000000000001) (new_bot None None)))
      = [GetChat (- 1000000000001), GetSupergroup 1]"
    unfolding init_probe_failed [OF a b]
    by (simp add: descriptor_request_def r new_bot_def)
  with cs show ?thesis by simp
qed

text \<open>
  Property X2: \<open>deleteMessage\<close> and \<open>setChatDescription\<close>, invoked while \<open>ready\<close> is
  false, throw \<open>Not ready.\<close> and leave the state, the trace of requests included, as it
  is.
\<close>

theorem not_ready_guard:
  assumes "\<not> ready s"
  shows "deleteMessage tr get_tdlib_message_id now_check now_store chat_id message_ids s
           = (Inl (JsError ''Not ready.''), s)
       \<and> setChatDescription tr now_check now_store chat_id description s
           = (Inl (JsError ''Not ready.''), s)"
  using assms by (simp add: deleteMessage_not_ready setChatDescription_not_ready)

theorem not_ready_guard_witness:
  "deleteMessage accepting (\<lambda>i. i * 1048576) 0 0 (ChatNum 5) (Inl 2) (new_bot None None)
     = (Inl (JsError ''Not ready.''), new_bot None None)
   \<and> setChatDescription accepting 0 0 (ChatNum 5) ''d'' (new_bot None None)
     = (Inl (JsError ''Not ready.''), new_bot None None)"
proof -
  have "\<not> ready (new_bot None None)" by (simp add: new_bot_def)
  from not_ready_guard [OF this] show ?thesis by blast
qed

text \<open>
  Property X3: the event names of different \<open>(chat_id, message_id)\<close> pairs differ, so
  an update for another pair, of either kind, leaves a pending wait pending: its
  promise stays unsettled and its closure registered.
\<close>

theorem other_key_update_keeps_wait:
  assumes "pending (sendMsg_event chat_id message_id) n s"
    and "(msg_chat_id (upd_message u), old_message_id u) \<noteq> (chat_id, message_id)"
  shows "pending (sendMsg_event chat_id message_id) n (on_updateMessageSendSucceeded u s)
       \<and> pending (sendMsg_event chat_id message_id) n (on_updateMessageSendFailed u s)"
proof -
  have "sendMsg_event (msg_chat_id (upd_message u)) (old_message_id u)
          \<noteq> sendMsg_event chat_id message_id"
    using assms(2) sendMsg_event_inj by blast
  from emit_other_keeps_pending [OF assms(1) this] show ?thesis
    by (simp add: on_updateMessageSendSucceeded_def on_updateMessageSendFailed_def)
qed

theorem other_key_update_keeps_wait_witness:
  "pending (sendMsg_event 42 8) 0
     (on_updateMessageSendSucceeded sample_update (snd (waitMessageTillSent 42 8 (new_bot None None))))"
proof -
  have p: "pending (sendMsg_event 42 8) 0 (snd (waitMessageTillSent 42 8 (new_bot None None)))"
    using register_pending [OF new_bot_created, of 42 8 None None] by (simp add: new_bot_def)
  have k: "(msg_chat_id (upd_message sample_update), old_message_id sample_update) \<noteq> (42, 8)"
    by (simp add: sample_update_def)
  from other_key_update_keeps_wait [OF p k] show ?thesis by simp
qed

text \<open>
  Property X4: a new \<open>Bot\<close> satisfies the invariant \<open>promises_created\<close>, and from a state
  that satisfies it \<open>_waitMessageTillSent\<close> returns a promise whose wait is pending
  under the event name of its pair, in a state that satisfies the invariant again.
\<close>

theorem register_makes_pending:
  assumes "promises_created s"
    and "waitMessageTillSent chat_id message_id s = (n, s1)"
  shows "pending (sendMsg_event chat_id message_id) n s1 \<and> promises_created s1
       \<and> promises_created (new_bot period key)"
proof -
  from assms(2) have "n = promise_count s" "s1 = snd (waitMessageTillSent chat_id message_id s)"
    by (auto simp: waitMessageTillSent_def)
  with register_pending [OF assms(1)] register_created [OF assms(1)] new_bot_created
  show ?thesis by simp
qed

theorem register_makes_pending_witness:
  "pending (sendMsg_event 42 7) 0 (snd (waitMessageTillSent 42 7 (new_bot None None)))"
proof -
  have r: "waitMessageTillSent 42 7 (new_bot None None) = (0, snd (waitMessageTillSent 42 7 (new_bot None None)))"
    by (simp add: waitMessageTillSent_def new_bot_def)
  from register_makes_pending [OF new_bot_created r] show ?thesis by simp
qed

text \<open>
  Property X5: with encryption disabled the token is the base-64 text of the plaintext,
  and the incoming payload decodes to the plaintext again.
\<close>

theorem plain_callback_data_roundtrip:
  assumes "encrypt_callback_query s = None"
  shows "parseReplyMarkup_callback_data E s iv p = Inr (b64_encode p)
       \<and> processIncomingCallbackQuery_data E s (b64_encode p) = Some p"
  using assms
  by (simp add: parseReplyMarkup_callback_data_def processIncomingCallbackQuery_data_def b64_roundtrip)

theorem plain_callback_data_roundtrip_witness:
  "parseReplyMarkup_callback_data sample_block (new_bot None None) sample_iv sample_plaintext
     = Inr (b64_encode sample_plaintext)
   \<and> processIncomingCallbackQuery_data sample_block (new_bot None None) (b64_encode sample_plaintext)
     = Some sample_plaintext"
proof -
  have "encrypt_callback_query (new_bot None None) = None" by (simp add: new_bot_def)
  from plain_callback_data_roundtrip [OF this] show ?thesis .
qed

end
